theory Spec2Isabelle
  imports Complex_Main "HOL-Library.Sublist"
begin

section \<open>The EGMS L3 data tool: tile download and location enrichment\<close>

text \<open>
  A shallow embedding of \<^verbatim>\<open>egms_L3_web.py\<close>: the tile fetch \<^verbatim>\<open>download_tile\<close>, the
  batch loop of \<^verbatim>\<open>main\<close>, the coordinate conversion, the location lookup
  \<^verbatim>\<open>get_location_name\<close> and the enrichment \<^verbatim>\<open>enrich_dataset_with_locations\<close>.

  The program talks to the outside: an HTTP archive, a geocoder, the file system, the
  Streamlit page and the clock. Each of them is explicit here. What the outside answers
  is a parameter (the record \<open>env\<close>); what the program does to the outside is recorded
  in the state (the record \<open>world\<close>), which every function takes and returns.
  A Python exception is a value: a function returns \<open>Return v w\<close> or \<open>Raise x w\<close>,
  both with the state reached.
\<close>

subsection \<open>Exceptions and outcomes\<close>

text \<open>An exception: its class name and the text \<^verbatim>\<open>str(e)\<close> gives.\<close>

datatype exc = Exc (exc_class: string) (exc_str: string)

datatype ('a, 's) outcome = Return 'a 's | Raise exc 's

fun is_return :: "('a, 's) outcome \<Rightarrow> bool" where
  "is_return (Return _ _) = True"
| "is_return (Raise _ _) = False"

fun state_of :: "('a, 's) outcome \<Rightarrow> 's" where
  "state_of (Return _ w) = w"
| "state_of (Raise _ w) = w"

fun value_of :: "('a, 's) outcome \<Rightarrow> 'a option" where
  "value_of (Return v _) = Some v"
| "value_of (Raise _ _) = None"

subsection \<open>Python's \<^verbatim>\<open>str\<close> of an integer\<close>

definition digit_char :: "nat \<Rightarrow> char" where
  "digit_char k = ''0123456789'' ! k"

fun str_nat :: "nat \<Rightarrow> string" where
  "str_nat k = (if k < 10 then [digit_char k] else str_nat (k div 10) @ [digit_char (k mod 10)])"

declare str_nat.simps [simp del]

definition str_int :: "int \<Rightarrow> string" where
  "str_int i = (if i < 0 then CHR ''-'' # str_nat (nat (- i)) else str_nat (nat i))"

subsection \<open>Configuration\<close>

definition DOWNLOAD_BASE :: string where
  "DOWNLOAD_BASE = ''Point_downloads''"

definition NAMES_DATASETS_DIR :: string where
  "NAMES_DATASETS_DIR = ''Point_locations''"

text \<open>\<^verbatim>\<open>DELAY = 3.0\<close> seconds, and the 0.5 seconds of the enrichment loop, in milliseconds.\<close>

definition DELAY :: nat where
  "DELAY = 3000"

definition GEOCODE_DELAY :: nat where
  "GEOCODE_DELAY = 500"

text \<open>\<^verbatim>\<open>BASE_URL.format(e=e, n=n, d=d, year=year, id=id)\<close>.\<close>

definition base_url :: "int \<Rightarrow> int \<Rightarrow> string \<Rightarrow> string \<Rightarrow> string \<Rightarrow> string" where
  "base_url e n d year ident =
     ''https://egms.land.copernicus.eu/insar-api/archive/download/EGMS_L3_E'' @ str_int e
       @ ''N'' @ str_int n @ ''_100km_'' @ d @ ''_'' @ year @ ''_1.zip?id='' @ ident"

subsection \<open>The state and the environment\<close>

text \<open>What the page shows, in the order the program emits it.\<close>

datatype ui_event =
    Progress rat string
  | Status_text string
  | St_error string
  | St_warning string
  | St_success string

text \<open>
  \<open>files\<close> and \<open>dirs\<close> are the file system (a path to the bytes of the file; the
  directories made). \<open>download_status\<close>, \<open>enrich_status\<close> and \<open>session_total_tasks\<close>
  are the fields of \<^verbatim>\<open>st.session_state\<close>. \<open>clock\<close> is the time in milliseconds.
  \<open>tile_calls\<close>, \<open>http_log\<close> and \<open>geo_log\<close> record, in call order, the arguments of
  each call of \<^verbatim>\<open>download_tile\<close>, each HTTP request with the time it was issued and
  each geocoder request with the time it was issued: the source keeps no such lists,
  they are what an observer of the run would write down.
\<close>

record 'f world =
  files :: "string \<rightharpoonup> string"
  dirs :: "string set"
  download_status :: string
  enrich_status :: string
  session_total_tasks :: int
  ui :: "ui_event list"
  clock :: nat
  tile_calls :: "(int \<times> int \<times> string) list"
  http_log :: "(nat \<times> string) list"
  geo_log :: "(nat \<times> 'f \<times> 'f) list"

record http_response =
  status_code :: int
  content :: string

text \<open>
  What \<^verbatim>\<open>geolocator.reverse\<close> returns: \<open>raw_address\<close> is \<^verbatim>\<open>location.raw.get('address', {})\<close>
  and \<open>full_address\<close> is \<^verbatim>\<open>location.address\<close>.
\<close>

record location =
  raw_address :: "string \<rightharpoonup> string"
  full_address :: string

text \<open>
  A member of an archive, as extracting it goes: \<open>Stored b\<close> reads as the bytes \<open>b\<close>;
  \<open>Unreadable x\<close> cannot be opened (an encrypted member, an unknown compression) and
  raises \<open>x\<close> before the target file is touched; \<open>Damaged b x\<close> raises \<open>x\<close> while it is
  read (a wrong checksum), after the target file was created and the bytes \<open>b\<close> were
  written to it.
\<close>

datatype member = Stored string | Unreadable exc | Damaged string exc

text \<open>
  The outside world, with \<open>'f\<close> the type of Python floats.
  \<^item> \<open>http_get k url\<close>: the answer to the \<open>k\<close>-th HTTP request of the run, sent to \<open>url\<close>
    (a response, or the exception \<^verbatim>\<open>curl_requests.get\<close> raises), and \<open>http_duration\<close>
    the time it takes.
  \<^item> \<open>zip_open bytes\<close>: \<^verbatim>\<open>zipfile.ZipFile(BytesIO(bytes))\<close>, the entries of the archive
    in directory order (name and member), or the exception for bytes that are no archive.
  \<^item> \<open>from_crs\<close>: \<^verbatim>\<open>pyproj.Transformer.from_crs("EPSG:3035", "EPSG:4326", always_xy=True)\<close>,
    a transformer (a function that returns \<open>(lon, lat)\<close> or raises) or an exception.
  \<^item> \<open>float_of\<close>: Python's \<^verbatim>\<open>float(s)\<close> on a string, which raises on a non-numeric one.
  \<^item> \<open>reverse k (lat, lon)\<close>: the answer to the \<open>k\<close>-th geocoder request, and
    \<open>reverse_duration\<close> the time it takes.
  \<^item> \<open>csv_reader bytes\<close>: the rows \<^verbatim>\<open>csv.reader\<close> yields for a file of these bytes;
    \<open>csv_writerow row\<close>: the bytes one \<^verbatim>\<open>writer.writerow(row)\<close> appends.
  \<^item> \<open>repr_list\<close>: Python's formatting of a list of strings inside an f-string;
    \<open>format_exc\<close>: \<^verbatim>\<open>traceback.format_exc()\<close> for the exception being handled.
\<close>

record 'f env =
  http_get :: "nat \<Rightarrow> string \<Rightarrow> exc + http_response"
  http_duration :: "nat \<Rightarrow> string \<Rightarrow> nat"
  zip_open :: "string \<Rightarrow> exc + (string \<times> member) list"
  from_crs :: "exc + ('f \<Rightarrow> 'f \<Rightarrow> exc + 'f \<times> 'f)"
  float_of :: "string \<Rightarrow> exc + 'f"
  reverse :: "nat \<Rightarrow> 'f \<times> 'f \<Rightarrow> exc + location option"
  reverse_duration :: "nat \<Rightarrow> 'f \<times> 'f \<Rightarrow> nat"
  csv_reader :: "string \<Rightarrow> string list list"
  csv_writerow :: "string list \<Rightarrow> string"
  repr_list :: "string list \<Rightarrow> string"
  format_exc :: "exc \<Rightarrow> string"

text \<open>\<^verbatim>\<open>sleep(d)\<close>: the clock moves on by \<open>d\<close>.\<close>

definition sleep :: "nat \<Rightarrow> 'f world \<Rightarrow> 'f world" where
  "sleep d w = w\<lparr>clock := clock w + d\<rparr>"

text \<open>
  Splitting a string at a separator and joining strings with one, as \<^verbatim>\<open>str.split\<close> and
  \<^verbatim>\<open>str.join\<close> do.
\<close>

fun split_on :: "char \<Rightarrow> string \<Rightarrow> string list" where
  "split_on sep [] = [[]]"
| "split_on sep (c # cs) =
     (if c = sep then [] # split_on sep cs
      else (case split_on sep cs of f # fs \<Rightarrow> (c # f) # fs | [] \<Rightarrow> [[c]]))"

fun join_with :: "string \<Rightarrow> string list \<Rightarrow> string" where
  "join_with sep [] = []"
| "join_with sep [f] = f"
| "join_with sep (f # g # fs) = f @ sep @ join_with sep (g # fs)"

text \<open>
  \<^verbatim>\<open>os.makedirs(path, exist_ok=True)\<close> makes the directory and those above it: for
  \<open>a/b/c\<close> these are \<open>a\<close>, \<open>a/b\<close> and \<open>a/b/c\<close>.
\<close>

definition path_prefixes :: "string \<Rightarrow> string list" where
  "path_prefixes path =
     map (join_with ''/'') (filter (\<lambda>cs. cs \<noteq> []) (prefixes (split_on CHR ''/'' path)))"

definition makedirs :: "string \<Rightarrow> 'f world \<Rightarrow> 'f world" where
  "makedirs path w = w\<lparr>dirs := set (path_prefixes path) \<union> dirs w\<rparr>"

definition emit :: "ui_event \<Rightarrow> 'f world \<Rightarrow> 'f world" where
  "emit ev w = w\<lparr>ui := ui w @ [ev]\<rparr>"

subsection \<open>\<^verbatim>\<open>download_tile\<close>\<close>

definition tile_code :: "int \<Rightarrow> int \<Rightarrow> string" where
  "tile_code e n = ''E'' @ str_int e @ ''N'' @ str_int n"

definition filename_prefix :: "int \<Rightarrow> int \<Rightarrow> string \<Rightarrow> string \<Rightarrow> string" where
  "filename_prefix e n d year =
     ''EGMS_L3_'' @ tile_code e n @ ''_100km_'' @ d @ ''_'' @ year @ ''_1''"

text \<open>\<^verbatim>\<open>name.endswith(".csv") and filename_prefix in name\<close>.\<close>

definition matching_name :: "string \<Rightarrow> string \<Rightarrow> bool" where
  "matching_name pre name \<longleftrightarrow> suffix ''.csv'' name \<and> sublist pre name"

text \<open>
  \<^verbatim>\<open>z.extract(name, path=DOWNLOAD_BASE)\<close>, as \<^verbatim>\<open>zipfile\<close> does it on POSIX paths.
  \<^item> The member is looked up by name; of several entries with one name \<^verbatim>\<open>ZipFile\<close>
    keeps the last.
  \<^item> The name is cleaned: split at \<open>/\<close>, the empty components and the components
    \<open>.\<close> and \<open>..\<close> are dropped, the rest is joined again. So a leading \<open>/\<close> and every
    \<open>..\<close> disappear, and the target lies under the download directory. A name that
    cleans to nothing is refused.
  \<^item> The directories above the target are made.
  \<^item> The member is opened, then the target file is created, then the bytes are copied.
    An exception of the first step leaves the files as they were; an exception while
    copying leaves the target with the bytes written before it.
\<close>

definition clean_member_name :: "string \<Rightarrow> string" where
  "clean_member_name name =
     join_with ''/''
       (filter (\<lambda>x. x \<noteq> [] \<and> x \<noteq> ''.'' \<and> x \<noteq> ''..'') (split_on CHR ''/'' name))"

definition extract_path :: "string \<Rightarrow> string" where
  "extract_path name = DOWNLOAD_BASE @ ''/'' @ clean_member_name name"

text \<open>\<^verbatim>\<open>os.path.dirname\<close>\<close>

definition dirname :: "string \<Rightarrow> string" where
  "dirname p =
     (let h = rev (dropWhile (\<lambda>c. c \<noteq> CHR ''/'') (rev p))
      in if filter (\<lambda>c. c \<noteq> CHR ''/'') h = [] then h
         else rev (dropWhile (\<lambda>c. c = CHR ''/'') (rev h)))"

definition zip_extract ::
  "(string \<times> member) list \<Rightarrow> string \<Rightarrow> 'f world \<Rightarrow> (unit, 'f world) outcome" where
  "zip_extract entries name w =
     (case map_of (rev entries) name of
        None \<Rightarrow> Raise (Exc ''KeyError'' (''There is no item named '' @ name @ '' in the archive'')) w
      | Some m \<Rightarrow>
          if clean_member_name name = [] then Raise (Exc ''ValueError'' ''Empty filename.'') w
          else
            (let target = extract_path name;
                 w1 = makedirs (dirname target) w
             in case m of
                  Unreadable x \<Rightarrow> Raise x w1
                | Damaged b x \<Rightarrow> Raise x (w1\<lparr>files := (files w1)(target \<mapsto> b)\<rparr>)
                | Stored b \<Rightarrow> Return () (w1\<lparr>files := (files w1)(target \<mapsto> b)\<rparr>)))"

text \<open>
  The loop \<^verbatim>\<open>for name in z.namelist()\<close>: \<open>None\<close> when the loop ran to its end; otherwise
  what happened at the first matching name, either the member was extracted and the
  function returned \<^verbatim>\<open>True\<close>, or \<^verbatim>\<open>z.extract\<close> raised.
\<close>

fun scan_namelist ::
  "string \<Rightarrow> (string \<times> member) list \<Rightarrow> string list \<Rightarrow> 'f world
     \<Rightarrow> (bool, 'f world) outcome option" where
  "scan_namelist pre entries [] w = None"
| "scan_namelist pre entries (name # names) w =
     (if matching_name pre name
      then Some (case zip_extract entries name w of
                   Raise x w' \<Rightarrow> Raise x w'
                 | Return _ w' \<Rightarrow> Return True (w'\<lparr>download_status := ''Extracted '' @ name\<rparr>))
      else scan_namelist pre entries names w)"

text \<open>The body of the \<^verbatim>\<open>try\<close>.\<close>

definition download_tile_try ::
  "'f env \<Rightarrow> int \<Rightarrow> int \<Rightarrow> string \<Rightarrow> string \<Rightarrow> string \<Rightarrow> 'f world \<Rightarrow> (bool, 'f world) outcome" where
  "download_tile_try env e n d year ident w0 =
     (let url = base_url e n d year ident;
          k = length (http_log w0);
          w1 = w0\<lparr>http_log := http_log w0 @ [(clock w0, url)],
                  clock := clock w0 + http_duration env k url\<rparr>
      in case http_get env k url of
           Inl x \<Rightarrow> Raise x w1
         | Inr response \<Rightarrow>
            (let w2 = w1\<lparr>download_status := ''Response for '' @ tile_code e n @ '' '' @ d
                            @ '': '' @ str_int (status_code response)\<rparr>
             in if status_code response \<noteq> 200
                then Return False
                       (w2\<lparr>download_status := ''Failed to download '' @ tile_code e n @ '' '' @ d\<rparr>)
                else
                  (let w3 = makedirs DOWNLOAD_BASE w2
                   in case zip_open env (content response) of
                        Inl x \<Rightarrow> Raise x w3
                      | Inr entries \<Rightarrow>
                         (case scan_namelist (filename_prefix e n d year) entries
                                 (map fst entries) w3 of
                            Some r \<Rightarrow> r
                          | None \<Rightarrow>
                              Return False
                                (w3\<lparr>download_status :=
                                      ''No matching CSV found in the downloaded zip for ''
                                        @ tile_code e n @ '' '' @ d\<rparr>)))))"

text \<open>The whole function: the \<^verbatim>\<open>except Exception\<close> turns a raise into \<^verbatim>\<open>False\<close>.\<close>

definition download_tile ::
  "'f env \<Rightarrow> int \<Rightarrow> int \<Rightarrow> string \<Rightarrow> string \<Rightarrow> string \<Rightarrow> 'f world \<Rightarrow> (bool, 'f world) outcome" where
  "download_tile env e n d year ident w =
     (case download_tile_try env e n d year ident
             (w\<lparr>tile_calls := tile_calls w @ [(e, n, d)]\<rparr>) of
        Raise x w' \<Rightarrow>
          Return False
            (w'\<lparr>download_status := ''Error downloading '' @ tile_code e n @ '' '' @ d
                   @ '': '' @ exc_str x\<rparr>)
      | Return b w' \<Rightarrow> Return b w')"

subsection \<open>The batch download of \<^verbatim>\<open>main\<close>\<close>

text \<open>
  \<^verbatim>\<open>progress_bar.progress(value, text=...)\<close>: Streamlit refuses a float outside
  \<open>[0.0, 1.0]\<close> with an exception. The fraction is kept exact (a rational) where Python
  has a float.
\<close>

definition progress_bar_progress :: "rat \<Rightarrow> string \<Rightarrow> 'f world \<Rightarrow> (unit, 'f world) outcome" where
  "progress_bar_progress v txt w =
     (if 0 \<le> v \<and> v \<le> 1 then Return () (emit (Progress v txt) w)
      else Raise (Exc ''StreamlitAPIException'' ''Progress Value has invalid value [0.0, 1.0]'') w)"

text \<open>\<^verbatim>\<open>a / b\<close> on integers.\<close>

definition truediv :: "int \<Rightarrow> int \<Rightarrow> exc + rat" where
  "truediv a b = (if b = 0 then Inl (Exc ''ZeroDivisionError'' ''division by zero'')
                  else Inr (of_int a / of_int b))"

text \<open>
  \<^verbatim>\<open>if disp_choice == "Both": displacements = ["E", "U"] else: displacements = [disp_choice]\<close>
\<close>

definition displacements_of :: "string \<Rightarrow> string list" where
  "displacements_of disp_choice =
     (if disp_choice = ''Both'' then [''E'', ''U''] else [disp_choice])"

text \<open>The body of the innermost loop; the value is the new \<^verbatim>\<open>task_count\<close>.\<close>

definition batch_task ::
  "'f env \<Rightarrow> int \<Rightarrow> string \<Rightarrow> string \<Rightarrow> int \<Rightarrow> int \<Rightarrow> string \<Rightarrow> int \<Rightarrow> 'f world
     \<Rightarrow> (int, 'f world) outcome" where
  "batch_task env total_tasks year ident e n d task_count w =
     (let task_count' = task_count + 1
      in case truediv task_count' total_tasks of
           Inl x \<Rightarrow> Raise x w
         | Inr progress \<Rightarrow>
            (case progress_bar_progress progress
                    (''Downloading tile '' @ str_int task_count' @ ''/'' @ str_int total_tasks) w of
               Raise x w' \<Rightarrow> Raise x w'
             | Return _ w1 \<Rightarrow>
                (let w2 = emit (Status_text (''Downloading '' @ tile_code e n @ '' '' @ d @ ''...'')) w1
                 in case download_tile env e n d year ident w2 of
                      Raise x w' \<Rightarrow> Raise x w'
                    | Return _ w3 \<Rightarrow>
                        Return task_count'
                          (sleep DELAY (emit (Status_text (download_status w3)) w3)))))"

text \<open>\<^verbatim>\<open>for d in displacements\<close>, \<^verbatim>\<open>for n in range(min_n, max_n + 1)\<close> and
  \<^verbatim>\<open>for e in range(min_e, max_e + 1)\<close>.\<close>

fun for_d ::
  "'f env \<Rightarrow> int \<Rightarrow> string \<Rightarrow> string \<Rightarrow> int \<Rightarrow> int \<Rightarrow> string list \<Rightarrow> int \<Rightarrow> 'f world
     \<Rightarrow> (int, 'f world) outcome" where
  "for_d env total_tasks year ident e n [] task_count w = Return task_count w"
| "for_d env total_tasks year ident e n (d # ds) task_count w =
     (case batch_task env total_tasks year ident e n d task_count w of
        Raise x w' \<Rightarrow> Raise x w'
      | Return task_count' w' \<Rightarrow> for_d env total_tasks year ident e n ds task_count' w')"

fun for_n ::
  "'f env \<Rightarrow> int \<Rightarrow> string \<Rightarrow> string \<Rightarrow> int \<Rightarrow> int list \<Rightarrow> string list \<Rightarrow> int \<Rightarrow> 'f world
     \<Rightarrow> (int, 'f world) outcome" where
  "for_n env total_tasks year ident e [] displacements task_count w = Return task_count w"
| "for_n env total_tasks year ident e (n # ns) displacements task_count w =
     (case for_d env total_tasks year ident e n displacements task_count w of
        Raise x w' \<Rightarrow> Raise x w'
      | Return task_count' w' \<Rightarrow> for_n env total_tasks year ident e ns displacements task_count' w')"

fun for_e ::
  "'f env \<Rightarrow> int \<Rightarrow> string \<Rightarrow> string \<Rightarrow> int list \<Rightarrow> int list \<Rightarrow> string list \<Rightarrow> int \<Rightarrow> 'f world
     \<Rightarrow> (int, 'f world) outcome" where
  "for_e env total_tasks year ident [] ns displacements task_count w = Return task_count w"
| "for_e env total_tasks year ident (e # es) ns displacements task_count w =
     (case for_n env total_tasks year ident e ns displacements task_count w of
        Raise x w' \<Rightarrow> Raise x w'
      | Return task_count' w' \<Rightarrow> for_e env total_tasks year ident es ns displacements task_count' w')"

text \<open>The handler of the button \<^verbatim>\<open>Start Batch Download\<close>.\<close>

definition batch_download ::
  "'f env \<Rightarrow> int \<Rightarrow> int \<Rightarrow> int \<Rightarrow> int \<Rightarrow> string \<Rightarrow> string \<Rightarrow> string \<Rightarrow> 'f world
     \<Rightarrow> (unit, 'f world) outcome" where
  "batch_download env min_e max_e min_n max_n disp_choice year ident w =
     (let displacements = displacements_of disp_choice;
          total_tasks = (max_e - min_e + 1) * (max_n - min_n + 1) * int (length displacements);
          w1 = w\<lparr>session_total_tasks := total_tasks\<rparr>;
          w2 = emit (Progress 0 ''Starting batch download...'') w1
      in case for_e env total_tasks year ident [min_e..max_e] [min_n..max_n] displacements 0 w2 of
           Raise x w' \<Rightarrow> Raise x w'
         | Return _ w3 \<Rightarrow> progress_bar_progress 1 ''Batch download complete!'' w3)"

subsection \<open>\<^verbatim>\<open>init_transformer\<close> and \<^verbatim>\<open>convert_coordinates\<close>\<close>

text \<open>
  The \<^verbatim>\<open>try\<close> of \<^verbatim>\<open>init_transformer\<close> catches every exception, so the function returns
  a transformer or \<^verbatim>\<open>None\<close>. Streamlit caches the result and shows the warning of a
  cached call again.
\<close>

definition init_transformer ::
  "'f env \<Rightarrow> 'f world \<Rightarrow> ('f \<Rightarrow> 'f \<Rightarrow> exc + 'f \<times> 'f) option \<times> 'f world" where
  "init_transformer env w =
     (case from_crs env of
        Inl x \<Rightarrow> (None, emit (St_warning (''Could not initialize coordinate transformer: '' @ exc_str x)) w)
      | Inr t \<Rightarrow> (Some t, w))"

text \<open>\<^verbatim>\<open>lon, lat = transformer.transform(float(easting), float(northing)); return lat, lon\<close>\<close>

definition convert_coordinates_try ::
  "'f env \<Rightarrow> string \<Rightarrow> string \<Rightarrow> ('f \<Rightarrow> 'f \<Rightarrow> exc + 'f \<times> 'f) \<Rightarrow> exc + 'f \<times> 'f" where
  "convert_coordinates_try env easting northing t =
     (case float_of env easting of
        Inl x \<Rightarrow> Inl x
      | Inr fe \<Rightarrow>
         (case float_of env northing of
            Inl x \<Rightarrow> Inl x
          | Inr fn \<Rightarrow>
             (case t fe fn of
                Inl x \<Rightarrow> Inl x
              | Inr (lon, lat) \<Rightarrow> Inr (lat, lon))))"

definition convert_coordinates ::
  "'f env \<Rightarrow> string \<Rightarrow> string \<Rightarrow> ('f \<Rightarrow> 'f \<Rightarrow> exc + 'f \<times> 'f) option \<Rightarrow> 'f world
     \<Rightarrow> ('f option \<times> 'f option) \<times> 'f world" where
  "convert_coordinates env easting northing transformer w =
     (let (transformer', w1) =
            (case transformer of None \<Rightarrow> init_transformer env w | Some t \<Rightarrow> (Some t, w))
      in case transformer' of
           None \<Rightarrow> ((None, None), w1)
         | Some t \<Rightarrow>
            (case convert_coordinates_try env easting northing t of
               Inr (lat, lon) \<Rightarrow> ((Some lat, Some lon), w1)
             | Inl x \<Rightarrow>
                 ((None, None), emit (St_error (''Error converting coordinates: '' @ exc_str x)) w1)))"

subsection \<open>\<^verbatim>\<open>get_location_name\<close>\<close>

text \<open>\<^verbatim>\<open>d.get(key, default)\<close>\<close>

definition dict_get :: "('k \<rightharpoonup> 'v) \<Rightarrow> 'k \<Rightarrow> 'v \<Rightarrow> 'v" where
  "dict_get m k dflt = (case m k of Some v \<Rightarrow> v | None \<Rightarrow> dflt)"

text \<open>
  The body of the \<^verbatim>\<open>try\<close>: one request to the geocoder, then the label. Building the
  \<^verbatim>\<open>Nominatim\<close> object before the \<^verbatim>\<open>try\<close> sends nothing and, with the user agent the
  source gives, does not raise.
\<close>

definition get_location_name_try ::
  "'f env \<Rightarrow> 'f \<Rightarrow> 'f \<Rightarrow> 'f world \<Rightarrow> (string, 'f world) outcome" where
  "get_location_name_try env latitude longitude w =
     (let k = length (geo_log w);
          w1 = w\<lparr>geo_log := geo_log w @ [(clock w, latitude, longitude)],
                 clock := clock w + reverse_duration env k (latitude, longitude)\<rparr>
      in case reverse env k (latitude, longitude) of
           Inl x \<Rightarrow> Raise x w1
         | Inr None \<Rightarrow> Return ''Unknown location'' w1
         | Inr (Some loc) \<Rightarrow>
            (let address = raw_address loc;
                 city = dict_get address ''city''
                          (dict_get address ''town'' (dict_get address ''village'' []));
                 country = dict_get address ''country'' []
             in if city \<noteq> [] \<and> country \<noteq> []
                then Return (city @ '', '' @ country) w1
                else Return (full_address loc) w1))"

definition get_location_name ::
  "'f env \<Rightarrow> 'f option \<Rightarrow> 'f option \<Rightarrow> 'f world \<Rightarrow> (string, 'f world) outcome" where
  "get_location_name env latitude longitude w =
     (case (latitude, longitude) of
        (Some lat, Some lon) \<Rightarrow>
          (case get_location_name_try env lat lon w of
             Raise x w' \<Rightarrow>
               Return ''Geocoding error'' (emit (St_warning (''Error in geocoding: '' @ exc_str x)) w')
           | Return s w' \<Rightarrow> Return s w')
      | _ \<Rightarrow> Return ''Unknown location'' w)"

subsection \<open>\<^verbatim>\<open>enrich_dataset_with_locations\<close>\<close>

text \<open>\<^verbatim>\<open>col.lower()\<close>, on the ASCII letters.\<close>

definition lower_char :: "char \<Rightarrow> char" where
  "lower_char c =
     (let k = (of_char c :: nat) in if 65 \<le> k \<and> k \<le> 90 then char_of (k + 32) else c)"

definition str_lower :: "string \<Rightarrow> string" where
  "str_lower s = map lower_char s"

text \<open>
  \<^verbatim>\<open>xs.index(x) if x in xs else None\<close>: the first position of \<open>x\<close>, or \<^verbatim>\<open>None\<close>.
\<close>

fun index_of :: "'a \<Rightarrow> 'a list \<Rightarrow> nat option" where
  "index_of x [] = None"
| "index_of x (y # ys) = (if x = y then Some 0 else map_option Suc (index_of x ys))"

text \<open>\<^verbatim>\<open>row[i]\<close> for an index that is not negative.\<close>

definition py_index :: "'a list \<Rightarrow> nat \<Rightarrow> exc + 'a" where
  "py_index xs i =
     (if i < length xs then Inr (xs ! i) else Inl (Exc ''IndexError'' ''list index out of range''))"

text \<open>
  \<^verbatim>\<open>os.path.basename\<close>, \<^verbatim>\<open>os.path.splitext\<close> and \<^verbatim>\<open>os.path.join\<close> (of two parts), as
  \<^verbatim>\<open>posixpath\<close> has them: the extension starts at the last dot of the last component,
  unless only dots come before it in that component.
\<close>

definition basename :: "string \<Rightarrow> string" where
  "basename p = rev (takeWhile (\<lambda>c. c \<noteq> CHR ''/'') (rev p))"

definition splitext :: "string \<Rightarrow> string \<times> string" where
  "splitext p =
     (let name_rev = takeWhile (\<lambda>c. c \<noteq> CHR ''/'') (rev p);
          ext_rev = takeWhile (\<lambda>c. c \<noteq> CHR ''.'') name_rev
      in case dropWhile (\<lambda>c. c \<noteq> CHR ''.'') name_rev of
           [] \<Rightarrow> (p, [])
         | dot # stem_rev \<Rightarrow>
             if filter (\<lambda>c. c \<noteq> CHR ''.'') stem_rev \<noteq> []
             then (take (length p - Suc (length ext_rev)) p,
                   drop (length p - Suc (length ext_rev)) p)
             else (p, []))"

definition path_join :: "string \<Rightarrow> string \<Rightarrow> string" where
  "path_join a b =
     (if b \<noteq> [] \<and> hd b = CHR ''/'' then b
      else if a = [] \<or> last a = CHR ''/'' then a @ b
      else a @ ''/'' @ b)"

definition output_file_of :: "string \<Rightarrow> string" where
  "output_file_of input_file =
     path_join NAMES_DATASETS_DIR (fst (splitext (basename input_file)) @ ''_locations.csv'')"

text \<open>The bytes of a file, and \<^verbatim>\<open>writer.writerow(row)\<close> on the file opened at \<open>path\<close>.\<close>

definition read_file :: "'f world \<Rightarrow> string \<Rightarrow> string" where
  "read_file w path = (case files w path of Some b \<Rightarrow> b | None \<Rightarrow> [])"

definition writerow :: "'f env \<Rightarrow> string \<Rightarrow> string list \<Rightarrow> 'f world \<Rightarrow> 'f world" where
  "writerow env path row w =
     w\<lparr>files := (files w)(path \<mapsto> read_file w path @ csv_writerow env row)\<rparr>"

text \<open>
  The body of \<^verbatim>\<open>for i, row in enumerate(rows)\<close>. The list given to \<^verbatim>\<open>writerow\<close> reads
  \<^verbatim>\<open>row[pid_idx]\<close> first; the two other fields were read before.
\<close>

definition enrich_row ::
  "'f env \<Rightarrow> ('f \<Rightarrow> 'f \<Rightarrow> exc + 'f \<times> 'f) option \<Rightarrow> nat \<Rightarrow> nat \<Rightarrow> nat \<Rightarrow> nat \<Rightarrow> string
     \<Rightarrow> nat \<Rightarrow> string list \<Rightarrow> 'f world \<Rightarrow> (unit, 'f world) outcome" where
  "enrich_row env transformer pid_idx easting_idx northing_idx total_rows output_file i row w =
     (case py_index row easting_idx of
        Inl x \<Rightarrow> Raise x w
      | Inr easting \<Rightarrow>
         (case py_index row northing_idx of
            Inl x \<Rightarrow> Raise x w
          | Inr northing \<Rightarrow>
             (let ((lat, lon), w1) = convert_coordinates env easting northing transformer w
              in case get_location_name env lat lon w1 of
                   Raise x w' \<Rightarrow> Raise x w'
                 | Return location w2 \<Rightarrow>
                    (let w3 = sleep GEOCODE_DELAY w2
                     in case py_index row pid_idx of
                          Inl x \<Rightarrow> Raise x w3
                        | Inr pid \<Rightarrow>
                           (let w4 = writerow env output_file [pid, easting, northing, location] w3
                            in case truediv (int i + 1) (int total_rows) of
                                 Inl x \<Rightarrow> Raise x w4
                               | Inr progress \<Rightarrow>
                                   progress_bar_progress progress
                                     (''Processing '' @ str_int (int i + 1) @ ''/''
                                        @ str_int (int total_rows) @ '' points'') w4)))))"

fun enrich_rows ::
  "'f env \<Rightarrow> ('f \<Rightarrow> 'f \<Rightarrow> exc + 'f \<times> 'f) option \<Rightarrow> nat \<Rightarrow> nat \<Rightarrow> nat \<Rightarrow> nat \<Rightarrow> string
     \<Rightarrow> nat \<Rightarrow> string list list \<Rightarrow> 'f world \<Rightarrow> (unit, 'f world) outcome" where
  "enrich_rows env transformer pid_idx easting_idx northing_idx total_rows output_file i [] w =
     Return () w"
| "enrich_rows env transformer pid_idx easting_idx northing_idx total_rows output_file i (row # rows) w =
     (case enrich_row env transformer pid_idx easting_idx northing_idx total_rows output_file i row w of
        Raise x w' \<Rightarrow> Raise x w'
      | Return _ w' \<Rightarrow>
          enrich_rows env transformer pid_idx easting_idx northing_idx total_rows output_file
            (Suc i) rows w')"

text \<open>
  The body of the \<^verbatim>\<open>try\<close>. Opening the output file for writing creates it empty (or
  empties it) before anything is read. \<^verbatim>\<open>next(reader)\<close> on a file without rows raises
  \<^verbatim>\<open>StopIteration\<close>. After \<^verbatim>\<open>rows = list(reader)\<close> the source rewinds the input and
  reads the header once more, which changes nothing.
\<close>

definition enrich_try ::
  "'f env \<Rightarrow> string \<Rightarrow> string \<Rightarrow> ('f \<Rightarrow> 'f \<Rightarrow> exc + 'f \<times> 'f) option \<Rightarrow> 'f world
     \<Rightarrow> (string option, 'f world) outcome" where
  "enrich_try env input_file output_file transformer w =
     (case files w input_file of
        None \<Rightarrow> Raise (Exc ''FileNotFoundError'' input_file) w
      | Some _ \<Rightarrow>
         (let w1 = w\<lparr>files := (files w)(output_file \<mapsto> [])\<rparr>
          in case csv_reader env (read_file w1 input_file) of
               [] \<Rightarrow> Raise (Exc ''StopIteration'' []) w1
             | header # rows \<Rightarrow>
                (let header_lower = map str_lower header
                 in case (index_of ''pid'' header_lower, index_of ''easting'' header_lower,
                          index_of ''northing'' header_lower) of
                      (Some pid_idx, Some easting_idx, Some northing_idx) \<Rightarrow>
                        (let w2 = w1\<lparr>enrich_status :=
                                       ''Found columns: pid='' @ header ! pid_idx
                                         @ '', easting='' @ header ! easting_idx
                                         @ '', northing='' @ header ! northing_idx\<rparr>;
                             w3 = writerow env output_file
                                    [''point_id'', ''easting'', ''northing'', ''location''] w2;
                             total_rows = length rows
                         in case enrich_rows env transformer pid_idx easting_idx northing_idx
                                   total_rows output_file 0 rows w3 of
                              Raise x w' \<Rightarrow> Raise x w'
                            | Return _ w4 \<Rightarrow>
                                Return (Some output_file)
                                  (emit (St_success (''Location dataset saved as: '' @ output_file)) w4))
                    | _ \<Rightarrow>
                        Return None
                          (emit (St_error (''Required columns not found. Available columns: ''
                                             @ repr_list env header)) w1))))"

text \<open>
  The whole function; the value is the path returned, or \<^verbatim>\<open>None\<close>.
  \<^verbatim>\<open>os.path.exists\<close> is asked of a path that names a file or nothing.
\<close>

definition enrich_dataset_with_locations ::
  "'f env \<Rightarrow> string \<Rightarrow> 'f world \<Rightarrow> (string option, 'f world) outcome" where
  "enrich_dataset_with_locations env input_file w =
     (if files w input_file = None
      then Return None (emit (St_error (''File not found: '' @ input_file)) w)
      else
        (let w1 = makedirs NAMES_DATASETS_DIR w;
             output_file = output_file_of input_file;
             (transformer, w2) = init_transformer env w1;
             w3 = (case transformer of
                     None \<Rightarrow> emit (St_warning ''Using approximate coordinate conversion'') w2
                   | Some _ \<Rightarrow> w2)
         in case enrich_try env input_file output_file transformer w3 of
              Raise x w' \<Rightarrow>
                Return None
                  (emit (St_error (format_exc env x))
                     (emit (St_error (''Error processing CSV: '' @ exc_str x)) w'))
            | Return r w' \<Rightarrow> Return r w'))"

subsection \<open>Notions used to state the properties\<close>

text \<open>
  The tasks of a region in the order the claims describe: \<open>e\<close> outermost, \<open>n\<close> inside
  it, the displacement innermost.
\<close>

definition grid_tasks :: "int \<Rightarrow> int \<Rightarrow> int \<Rightarrow> int \<Rightarrow> string list \<Rightarrow> (int \<times> int \<times> string) list" where
  "grid_tasks min_e max_e min_n max_n displacements =
     concat (map (\<lambda>e. concat (map (\<lambda>n. map (\<lambda>d. (e, n, d)) displacements) [min_n..max_n]))
               [min_e..max_e])"

text \<open>
  One loop over a list of tasks with the body of the innermost loop of the source; the
  three nested loops are shown to be this loop over \<open>grid_tasks\<close>.
\<close>

fun run_tasks ::
  "'f env \<Rightarrow> int \<Rightarrow> string \<Rightarrow> string \<Rightarrow> (int \<times> int \<times> string) list \<Rightarrow> int \<Rightarrow> 'f world
     \<Rightarrow> (int, 'f world) outcome" where
  "run_tasks env total_tasks year ident [] task_count w = Return task_count w"
| "run_tasks env total_tasks year ident ((e, n, d) # ts) task_count w =
     (case batch_task env total_tasks year ident e n d task_count w of
        Raise x w' \<Rightarrow> Raise x w'
      | Return task_count' w' \<Rightarrow> run_tasks env total_tasks year ident ts task_count' w')"

text \<open>
  \<open>spaced D ts\<close>: each time of \<open>ts\<close> is at least \<open>D\<close> after the one before it.
  \<open>paced k D lg now\<close>: the requests logged in \<open>lg\<close> from position \<open>k\<close> on are
  spaced by \<open>D\<close>, and the last of them lies at least \<open>D\<close> before \<open>now\<close>.
\<close>

fun spaced :: "nat \<Rightarrow> nat list \<Rightarrow> bool" where
  "spaced D [] = True"
| "spaced D [t] = True"
| "spaced D (t # u # ts) = (t + D \<le> u \<and> spaced D (u # ts))"

definition paced :: "nat \<Rightarrow> nat \<Rightarrow> (nat \<times> 'a) list \<Rightarrow> nat \<Rightarrow> bool" where
  "paced k D lg now \<longleftrightarrow>
     spaced D (map fst (drop k lg)) \<and> list_all (\<lambda>t. t + D \<le> now) (map fst (drop k lg))"

text \<open>
  For the enrichment: a row is wide enough when it has a field at each of the three
  resolved column positions; \<open>out_row\<close> is the row written for an input row and its
  location; a field is non-numeric when \<^verbatim>\<open>float\<close> raises on it; \<open>valid_header\<close> says
  that the input file exists, starts with \<open>header\<close>, continues with \<open>rows\<close>, and that
  the three required names are found in the header at \<open>p\<close>, \<open>e\<close> and \<open>n\<close>.
\<close>

definition wide_row :: "nat \<Rightarrow> nat \<Rightarrow> nat \<Rightarrow> string list \<Rightarrow> bool" where
  "wide_row p e n row \<longleftrightarrow> p < length row \<and> e < length row \<and> n < length row"

definition out_row :: "nat \<Rightarrow> nat \<Rightarrow> nat \<Rightarrow> string list \<Rightarrow> string \<Rightarrow> string list" where
  "out_row p e n row loc = [row ! p, row ! e, row ! n, loc]"

definition non_numeric :: "'f env \<Rightarrow> string \<Rightarrow> bool" where
  "non_numeric env s = (case float_of env s of Inl _ \<Rightarrow> True | Inr _ \<Rightarrow> False)"

definition header_out :: "string list" where
  "header_out = [''point_id'', ''easting'', ''northing'', ''location'']"

definition valid_header ::
  "'f env \<Rightarrow> 'f world \<Rightarrow> string \<Rightarrow> string list \<Rightarrow> string list list \<Rightarrow> nat \<Rightarrow> nat \<Rightarrow> nat \<Rightarrow> bool" where
  "valid_header env w input_file header rows p e n =
     (case files w input_file of
        None \<Rightarrow> False
      | Some bytes \<Rightarrow>
          csv_reader env bytes = header # rows
          \<and> index_of ''pid'' (map str_lower header) = Some p
          \<and> index_of ''easting'' (map str_lower header) = Some e
          \<and> index_of ''northing'' (map str_lower header) = Some n)"

subsection \<open>A concrete environment, for running the model\<close>

text \<open>
  Floats are integers here. \<open>demo_float_of\<close> accepts a non-empty string of digits.
  The CSV dialect is the plain one: fields joined by commas, rows ended by CR LF.
\<close>

definition demo_float_of :: "string \<Rightarrow> exc + int" where
  "demo_float_of s =
     (if s \<noteq> [] \<and> list_all (\<lambda>c. c \<in> set ''0123456789'') s
      then Inr (foldl (\<lambda>a c. 10 * a + (int (of_char c) - 48)) 0 s)
      else Inl (Exc ''ValueError'' (''could not convert string to float: '' @ s)))"

definition crlf :: string where
  "crlf = [CHR 0x0D, CHR 0x0A]"

definition strip_cr :: "string \<Rightarrow> string" where
  "strip_cr l = (if l \<noteq> [] \<and> last l = CHR 0x0D then butlast l else l)"

definition demo_csv_reader :: "string \<Rightarrow> string list list" where
  "demo_csv_reader s =
     (let ls = split_on (CHR 0x0A) s;
          ls' = (if last ls = [] then butlast ls else ls)
      in map (\<lambda>l. if strip_cr l = [] then [] else split_on CHR '','' (strip_cr l)) ls')"

fun join_comma :: "string list \<Rightarrow> string" where
  "join_comma [] = []"
| "join_comma [f] = f"
| "join_comma (f # g # fs) = f @ '','' @ join_comma (g # fs)"

definition demo_csv_writerow :: "string list \<Rightarrow> string" where
  "demo_csv_writerow row = join_comma row @ crlf"

text \<open>
  Two archives. In the first, the first matching name has a \<open>..\<close> component and a
  later entry has a matching name too. In the second, the matching member has a wrong
  checksum: reading it raises before a byte reaches the target file.
\<close>

definition demo_archive :: "(string \<times> member) list" where
  "demo_archive =
     [(''readme.txt'', Stored ''notes''),
      (''data/../EGMS_L3_E10N25_100km_E_2019_2023_1.csv'', Stored ''pid,easting,northing''),
      (''copy/EGMS_L3_E10N25_100km_E_2019_2023_1.csv'', Stored ''second'')]"

definition damaged_archive :: "(string \<times> member) list" where
  "damaged_archive =
     [(''EGMS_L3_E10N26_100km_E_2019_2023_1.csv'',
       Damaged [] (Exc ''BadZipFile'' ''Bad CRC-32 for file''))]"

definition demo_location :: location where
  "demo_location =
     \<lparr>raw_address = [''city'' \<mapsto> ''Graz'', ''country'' \<mapsto> ''Austria''],
      full_address = ''Graz, Styria, Austria''\<rparr>"

text \<open>
  The archive answers tile E10N25, displacement \<open>E\<close>, with \<open>demo_archive\<close>, displacement
  \<open>U\<close> of that tile with status 404, tile E10N26, displacement \<open>E\<close>, with
  \<open>damaged_archive\<close>, and drops the connection on every other request.
  The geocoder times out on latitude 0.
\<close>

definition demo_env :: "int env" where
  "demo_env =
     \<lparr>http_get = (\<lambda>k url.
         if url = base_url 10 25 ''E'' ''2019_2023'' ''key''
         then Inr \<lparr>status_code = 200, content = ''PK-demo''\<rparr>
         else if url = base_url 10 25 ''U'' ''2019_2023'' ''key''
         then Inr \<lparr>status_code = 404, content = []\<rparr>
         else if url = base_url 10 26 ''E'' ''2019_2023'' ''key''
         then Inr \<lparr>status_code = 200, content = ''PK-damaged''\<rparr>
         else Inl (Exc ''ConnectionError'' ''connection reset'')),
      http_duration = (\<lambda>k url. 7),
      zip_open = (\<lambda>b. if b = ''PK-demo'' then Inr demo_archive
                        else if b = ''PK-damaged'' then Inr damaged_archive
                        else Inl (Exc ''BadZipFile'' ''File is not a zip file'')),
      from_crs = Inr (\<lambda>x y. Inr (x, y)),
      float_of = demo_float_of,
      reverse = (\<lambda>k (lat, lon).
         if lat = 0 then Inl (Exc ''GeocoderTimedOut'' ''Service timed out'')
         else Inr (Some demo_location)),
      reverse_duration = (\<lambda>k p. 40),
      csv_reader = demo_csv_reader,
      csv_writerow = demo_csv_writerow,
      repr_list = (\<lambda>xs. ''['' @ join_comma xs @ '']''),
      format_exc = (\<lambda>x. ''Traceback: '' @ exc_class x)\<rparr>"

definition demo_world :: "(string \<rightharpoonup> string) \<Rightarrow> int world" where
  "demo_world fs =
     \<lparr>files = fs, dirs = {}, download_status = [], enrich_status = [],
      session_total_tasks = 0, ui = [], clock = 0, tile_calls = [], http_log = [],
      geo_log = []\<rparr>"

definition demo_input :: string where
  "demo_input = ''Point_downloads/pts.csv''"

definition demo_output :: string where
  "demo_output = ''Point_locations/pts_locations.csv''"

text \<open>Input files: a good one, one without the \<open>pid\<close> column, one with a short row,
  and one whose rows lack the \<open>pid\<close> field, which comes last in its header.\<close>

definition good_csv :: string where
  "good_csv = ''PID,Easting,Northing,extra'' @ crlf @ ''A1,4321000,3210000,ignored'' @ crlf
                @ ''A2,abc,3210000,x'' @ crlf @ ''A3,5,0,y'' @ crlf"

definition no_pid_csv :: string where
  "no_pid_csv = ''id,Easting,Northing'' @ crlf @ ''A1,4321000,3210000'' @ crlf"

definition short_row_csv :: string where
  "short_row_csv = ''pid,easting,northing'' @ crlf @ ''A1,4321000,3210000'' @ crlf
                     @ ''A2'' @ crlf @ ''A3,4321000,3210000'' @ crlf"


section \<open>Properties of the tile fetch\<close>

lemma zip_extract_frame:
  "tile_calls (state_of (zip_extract entries name w)) = tile_calls w
   \<and> ui (state_of (zip_extract entries name w)) = ui w
   \<and> http_log (state_of (zip_extract entries name w)) = http_log w
   \<and> clock (state_of (zip_extract entries name w)) = clock w
   \<and> geo_log (state_of (zip_extract entries name w)) = geo_log w
   \<and> session_total_tasks (state_of (zip_extract entries name w)) = session_total_tasks w"
  by (simp add: zip_extract_def makedirs_def Let_def split: option.splits member.splits)

lemma scan_namelist_find:
  "scan_namelist pre entries names w =
     map_option
       (\<lambda>name. case zip_extract entries name w of
                 Raise x w' \<Rightarrow> Raise x w'
               | Return _ w' \<Rightarrow> Return True (w'\<lparr>download_status := ''Extracted '' @ name\<rparr>))
       (find (matching_name pre) names)"
  by (induction names) auto

lemma download_tile_frame:
  "is_return (download_tile env e n d year ident w)
   \<and> tile_calls (state_of (download_tile env e n d year ident w)) = tile_calls w @ [(e, n, d)]
   \<and> ui (state_of (download_tile env e n d year ident w)) = ui w
   \<and> http_log (state_of (download_tile env e n d year ident w))
        = http_log w @ [(clock w, base_url e n d year ident)]
   \<and> clock (state_of (download_tile env e n d year ident w))
        = clock w + http_duration env (length (http_log w)) (base_url e n d year ident)
   \<and> geo_log (state_of (download_tile env e n d year ident w)) = geo_log w
   \<and> session_total_tasks (state_of (download_tile env e n d year ident w)) = session_total_tasks w"
  by (simp add: download_tile_def download_tile_try_def Let_def scan_namelist_find
        makedirs_def zip_extract_def split: sum.splits option.splits outcome.splits member.splits)

text \<open>
  Claim C5. A single tile fetch never raises to its caller: whatever the archive answers,
  \<^verbatim>\<open>download_tile\<close> returns a value. When the request itself fails (timeout, DNS,
  connection reset), the value is \<^verbatim>\<open>False\<close>, the status message reports the error with
  the text of the exception, and no file is touched.
\<close>

theorem download_tile_never_raises:
  "is_return (download_tile env e n d year ident w)
   \<and> (\<forall>x. http_get env (length (http_log w)) (base_url e n d year ident) = Inl x \<longrightarrow>
         value_of (download_tile env e n d year ident w) = Some False
         \<and> download_status (state_of (download_tile env e n d year ident w))
             = ''Error downloading '' @ tile_code e n @ '' '' @ d @ '': '' @ exc_str x
         \<and> files (state_of (download_tile env e n d year ident w)) = files w)"
  by (simp add: download_tile_def download_tile_try_def Let_def scan_namelist_find
        makedirs_def zip_extract_def split: sum.splits option.splits outcome.splits member.splits)

theorem download_tile_never_raises_witness:
  "is_return (download_tile demo_env 11 25 ''U'' ''2019_2023'' ''key'' (demo_world Map.empty))
   \<and> value_of (download_tile demo_env 11 25 ''U'' ''2019_2023'' ''key'' (demo_world Map.empty))
       = Some False
   \<and> download_status
        (state_of (download_tile demo_env 11 25 ''U'' ''2019_2023'' ''key'' (demo_world Map.empty)))
       = ''Error downloading E11N25 U: connection reset''"
proof -
  have h: "http_get demo_env (length (http_log (demo_world Map.empty)))
             (base_url 11 25 ''U'' ''2019_2023'' ''key'')
           = Inl (Exc ''ConnectionError'' ''connection reset'')"
    by code_simp
  have t: "tile_code 11 25 = ''E11N25''"
    by code_simp
  from download_tile_never_raises
         [of demo_env 11 25 "''U''" "''2019_2023''" "''key''" "demo_world Map.empty"] h t
  show ?thesis by simp
qed

subsection \<open>Claim C6: the files a fetch writes\<close>

text \<open>A name that ends in \<open>.csv\<close> never cleans to the empty name.\<close>

lemma split_on_not_Nil: "split_on sep s \<noteq> []"
  by (induction s) (auto split: list.splits)

lemma split_on_no_sep: "sep \<notin> set s \<Longrightarrow> split_on sep s = [s]"
  by (induction s) auto

lemma split_on_last_suffix:
  "suffix t s \<Longrightarrow> sep \<notin> set t \<Longrightarrow> suffix t (last (split_on sep s))"
proof (induction s)
  case Nil
  then show ?case by simp
next
  case (Cons c cs)
  show ?case
  proof (cases "t = c # cs")
    case True
    with Cons.prems(2) have "split_on sep (c # cs) = [c # cs]" by (intro split_on_no_sep) simp
    with True show ?thesis by simp
  next
    case False
    with Cons.prems(1) have "suffix t cs" by (simp add: suffix_Cons)
    from Cons.IH [OF this Cons.prems(2)] have ih: "suffix t (last (split_on sep cs))" .
    obtain f fs where s: "split_on sep cs = f # fs"
      using split_on_not_Nil [of sep cs] by (cases "split_on sep cs") auto
    show ?thesis
    proof (cases "c = sep")
      case True
      with ih s show ?thesis by simp
    next
      case False
      with ih s show ?thesis by (cases fs) (auto simp: suffix_Cons)
    qed
  qed
qed

lemma join_with_not_Nil: "x \<in> set xs \<Longrightarrow> x \<noteq> [] \<Longrightarrow> join_with sep xs \<noteq> []"
  by (induction sep xs rule: join_with.induct) auto

lemma clean_member_name_csv:
  assumes "suffix ''.csv'' name"
  shows "clean_member_name name \<noteq> []"
proof -
  let ?l = "last (split_on CHR ''/'' name)"
  from assms have "suffix ''.csv'' ?l" by (rule split_on_last_suffix) simp
  then obtain a where l: "?l = a @ ''.csv''" by (auto simp: suffix_def)
  then have "length ?l \<ge> 4" by simp
  then have "?l \<noteq> []" "?l \<noteq> ''.''" "?l \<noteq> ''..''" by auto
  moreover have "?l \<in> set (split_on CHR ''/'' name)"
    using split_on_not_Nil by (intro last_in_set)
  ultimately have "?l \<in> set (filter (\<lambda>x. x \<noteq> [] \<and> x \<noteq> ''.'' \<and> x \<noteq> ''..'')
                            (split_on CHR ''/'' name))"
    by simp
  from join_with_not_Nil [OF this \<open>?l \<noteq> []\<close>] show ?thesis
    by (simp add: clean_member_name_def)
qed

text \<open>
  Claim C6 says that a fetch writes the matching member and nothing else, and no file
  at all when it fails. \<^verbatim>\<open>z.extract\<close> creates its target before it reads the member,
  and the source removes nothing when the reading then raises. The archive for tile
  E10N26 holds a matching member with a wrong checksum: the fetch fails, it returns
  \<^verbatim>\<open>False\<close>, and a file that was not there before is left behind, empty.
\<close>

theorem download_tile_files_counterexample:
  "find (matching_name (filename_prefix 10 26 ''E'' ''2019_2023'')) (map fst damaged_archive)
     = Some ''EGMS_L3_E10N26_100km_E_2019_2023_1.csv''
   \<and> value_of (download_tile demo_env 10 26 ''E'' ''2019_2023'' ''key'' (demo_world Map.empty))
       = Some False
   \<and> files (demo_world Map.empty) ''Point_downloads/EGMS_L3_E10N26_100km_E_2019_2023_1.csv'' = None
   \<and> files (state_of (download_tile demo_env 10 26 ''E'' ''2019_2023'' ''key'' (demo_world Map.empty)))
         ''Point_downloads/EGMS_L3_E10N26_100km_E_2019_2023_1.csv'' = Some []"
  by code_simp

text \<open>
  Claim C6, amended. Let the request succeed with status 200, the bytes be an archive,
  and \<open>name\<close> be the first entry name that ends in \<open>.csv\<close> and contains the expected
  fragment. The target is the download directory joined with \<open>name\<close> cleaned of its
  empty, \<open>.\<close> and \<open>..\<close> components.
  \<^item> When the member reads well, the fetch returns \<^verbatim>\<open>True\<close> and the files change at the
    target alone, which holds the member.
  \<^item> When reading the member raises after the target was created, the fetch returns
    \<^verbatim>\<open>False\<close> with the error as its status, and the files change at the target
    alone, which holds the bytes written before the exception.
  \<^item> When the member cannot be opened, the fetch returns \<^verbatim>\<open>False\<close> and no file
    changes.
  On every other path (no matching entry, with its status message; a status other
  than 200; a failed request; bytes that are no archive) the fetch returns
  \<^verbatim>\<open>False\<close> and the files are what they were.
\<close>

theorem download_tile_files:
  "let r = download_tile env e n d year ident w;
       answer = http_get env (length (http_log w)) (base_url e n d year ident);
       pre = filename_prefix e n d year
   in (\<forall>resp entries name b.
         answer = Inr resp \<and> status_code resp = 200 \<and> zip_open env (content resp) = Inr entries
         \<and> find (matching_name pre) (map fst entries) = Some name
         \<and> map_of (rev entries) name = Some (Stored b) \<longrightarrow>
           value_of r = Some True
           \<and> files (state_of r) = (files w)(extract_path name \<mapsto> b))
      \<and> (\<forall>resp entries name b x.
         answer = Inr resp \<and> status_code resp = 200 \<and> zip_open env (content resp) = Inr entries
         \<and> find (matching_name pre) (map fst entries) = Some name
         \<and> map_of (rev entries) name = Some (Damaged b x) \<longrightarrow>
           value_of r = Some False
           \<and> files (state_of r) = (files w)(extract_path name \<mapsto> b)
           \<and> download_status (state_of r)
               = ''Error downloading '' @ tile_code e n @ '' '' @ d @ '': '' @ exc_str x)
      \<and> (\<forall>resp entries name x.
         answer = Inr resp \<and> status_code resp = 200 \<and> zip_open env (content resp) = Inr entries
         \<and> find (matching_name pre) (map fst entries) = Some name
         \<and> map_of (rev entries) name = Some (Unreadable x) \<longrightarrow>
           value_of r = Some False \<and> files (state_of r) = files w)
      \<and> (\<forall>resp entries.
         answer = Inr resp \<and> status_code resp = 200 \<and> zip_open env (content resp) = Inr entries
         \<and> find (matching_name pre) (map fst entries) = None \<longrightarrow>
           value_of r = Some False \<and> files (state_of r) = files w
           \<and> download_status (state_of r)
               = ''No matching CSV found in the downloaded zip for '' @ tile_code e n @ '' '' @ d)
      \<and> (\<forall>resp. answer = Inr resp \<and> status_code resp \<noteq> 200 \<longrightarrow>
           value_of r = Some False \<and> files (state_of r) = files w)
      \<and> (\<forall>x. answer = Inl x \<longrightarrow> value_of r = Some False \<and> files (state_of r) = files w)
      \<and> (\<forall>resp x.
         answer = Inr resp \<and> status_code resp = 200 \<and> zip_open env (content resp) = Inl x \<longrightarrow>
           value_of r = Some False \<and> files (state_of r) = files w)"
proof -
  have c: "clean_member_name name \<noteq> []"
    if "find (matching_name (filename_prefix e n d year)) names = Some name" for names name
  proof -
    from that have "matching_name (filename_prefix e n d year) name"
      by (auto simp: find_Some_iff)
    then show ?thesis by (simp add: matching_name_def clean_member_name_csv)
  qed
  show ?thesis
    by (auto simp: download_tile_def download_tile_try_def Let_def scan_namelist_find
          makedirs_def zip_extract_def c split: sum.splits option.splits)
qed

theorem download_tile_files_witness:
  "value_of (download_tile demo_env 10 25 ''E'' ''2019_2023'' ''key'' (demo_world Map.empty))
     = Some True
   \<and> files (state_of (download_tile demo_env 10 25 ''E'' ''2019_2023'' ''key'' (demo_world Map.empty)))
     = [''Point_downloads/data/EGMS_L3_E10N25_100km_E_2019_2023_1.csv'' \<mapsto> ''pid,easting,northing'']"
proof -
  have a: "http_get demo_env (length (http_log (demo_world Map.empty)))
             (base_url 10 25 ''E'' ''2019_2023'' ''key'')
           = Inr \<lparr>status_code = 200, content = ''PK-demo''\<rparr>"
    by (simp add: demo_env_def)
  have z: "zip_open demo_env ''PK-demo'' = Inr demo_archive"
    by (simp add: demo_env_def)
  have f: "find (matching_name (filename_prefix 10 25 ''E'' ''2019_2023'')) (map fst demo_archive)
           = Some ''data/../EGMS_L3_E10N25_100km_E_2019_2023_1.csv''"
    by code_simp
  have p: "extract_path ''data/../EGMS_L3_E10N25_100km_E_2019_2023_1.csv''
           = ''Point_downloads/data/EGMS_L3_E10N25_100km_E_2019_2023_1.csv''"
    by code_simp
  have m: "map_of (rev demo_archive) ''data/../EGMS_L3_E10N25_100km_E_2019_2023_1.csv''
           = Some (Stored ''pid,easting,northing'')"
    by code_simp
  have w: "files (demo_world Map.empty) = Map.empty"
    by (simp add: demo_world_def)
  from download_tile_files
         [of demo_env 10 25 "''E''" "''2019_2023''" "''key''" "demo_world Map.empty"] a z f p m w
  show ?thesis by (simp add: Let_def)
qed

section \<open>Properties of the batch download\<close>

lemma is_returnE: "is_return r \<Longrightarrow> \<exists>v s. r = Return v s"
  by (cases r) auto

lemma run_tasks_append:
  "run_tasks env tot year ident (xs @ ys) tc w =
     (case run_tasks env tot year ident xs tc w of
        Raise x w' \<Rightarrow> Raise x w'
      | Return tc' w' \<Rightarrow> run_tasks env tot year ident ys tc' w')"
  by (induction xs arbitrary: tc w) (auto split: outcome.splits)

lemma for_d_run:
  "for_d env tot year ident e n ds tc w =
     run_tasks env tot year ident (map (\<lambda>d. (e, n, d)) ds) tc w"
  by (induction ds arbitrary: tc w) (auto split: outcome.splits)

lemma for_n_run:
  "for_n env tot year ident e ns ds tc w =
     run_tasks env tot year ident (concat (map (\<lambda>n. map (\<lambda>d. (e, n, d)) ds) ns)) tc w"
  by (induction ns arbitrary: tc w) (auto simp: run_tasks_append for_d_run split: outcome.splits)

lemma for_e_run:
  "for_e env tot year ident es ns ds tc w =
     run_tasks env tot year ident
       (concat (map (\<lambda>e. concat (map (\<lambda>n. map (\<lambda>d. (e, n, d)) ds) ns)) es)) tc w"
  by (induction es arbitrary: tc w) (auto simp: run_tasks_append for_n_run split: outcome.splits)

lemma spaced_snoc:
  "spaced D ts \<Longrightarrow> list_all (\<lambda>t. t + D \<le> u) ts \<Longrightarrow> spaced D (ts @ [u])"
  by (induction D ts rule: spaced.induct) auto

lemma paced_step:
  assumes "k \<le> length lg" and "paced k D lg now" and "now \<le> now'"
  shows "paced k D (lg @ [(now, x)]) (now' + D)"
proof -
  from assms(1) have d: "drop k (lg @ [(now, x)]) = drop k lg @ [(now, x)]" by simp
  from assms(2) have s: "spaced D (map fst (drop k lg))"
    and a: "list_all (\<lambda>t. t + D \<le> now) (map fst (drop k lg))"
    by (simp_all add: paced_def)
  from s a have "spaced D (map fst (drop k lg) @ [now])" by (rule spaced_snoc)
  moreover from a assms(3) have "list_all (\<lambda>t. t + D \<le> now' + D) (map fst (drop k lg))"
    by (auto simp: list_all_iff)
  ultimately show ?thesis unfolding paced_def d using assms(3) by simp
qed

lemma progress_in_range:
  "0 \<le> tc \<Longrightarrow> tc < tot \<Longrightarrow>
     progress_bar_progress ((of_int tc + 1) / of_int tot) txt w
       = Return () (emit (Progress ((of_int tc + 1) / of_int tot) txt) w)"
  by (simp add: progress_bar_progress_def)

lemma batch_task_ok:
  assumes "0 \<le> tc" and "tc < tot"
  shows "\<exists>w'. batch_task env tot year ident e n d tc w = Return (tc + 1) w'
           \<and> tile_calls w' = tile_calls w @ [(e, n, d)]
           \<and> geo_log w' = geo_log w
           \<and> session_total_tasks w' = session_total_tasks w
           \<and> http_log w' = http_log w @ [(clock w, base_url e n d year ident)]
           \<and> clock w' = clock w + http_duration env (length (http_log w)) (base_url e n d year ident)
                          + DELAY"
proof -
  let ?txt = "''Downloading tile '' @ str_int (tc + 1) @ ''/'' @ str_int tot"
  let ?w1 = "emit (Progress (of_int (tc + 1) / of_int tot) ?txt) w"
  let ?w2 = "emit (Status_text (''Downloading '' @ tile_code e n @ '' '' @ d @ ''...'')) ?w1"
  from download_tile_frame [of env e n d year ident ?w2]
  obtain b w3 where r: "download_tile env e n d year ident ?w2 = Return b w3"
    by (auto dest: is_returnE)
  with download_tile_frame [of env e n d year ident ?w2]
  have f: "tile_calls w3 = tile_calls w @ [(e, n, d)]" "geo_log w3 = geo_log w"
    "session_total_tasks w3 = session_total_tasks w"
    "http_log w3 = http_log w @ [(clock w, base_url e n d year ident)]"
    "clock w3 = clock w + http_duration env (length (http_log w)) (base_url e n d year ident)"
    by (simp_all add: emit_def)
  from assms have "tot \<noteq> 0" by simp
  with assms r f show ?thesis
    by (simp add: batch_task_def truediv_def progress_in_range Let_def sleep_def emit_def)
qed

lemma run_tasks_ok:
  assumes "0 \<le> tc" and "tc + int (length ts) \<le> tot"
  shows "\<exists>w'. run_tasks env tot year ident ts tc w = Return (tc + int (length ts)) w'
           \<and> tile_calls w' = tile_calls w @ ts
           \<and> geo_log w' = geo_log w
           \<and> session_total_tasks w' = session_total_tasks w
           \<and> length (http_log w') = length (http_log w) + length ts
           \<and> (k \<le> length (http_log w) \<longrightarrow> paced k DELAY (http_log w) (clock w)
                \<longrightarrow> paced k DELAY (http_log w') (clock w'))"
  using assms
proof (induction ts arbitrary: tc w)
  case Nil
  then show ?case by simp
next
  case (Cons t ts)
  obtain e n d where t: "t = (e, n, d)" by (cases t)
  from Cons.prems have tc: "0 \<le> tc" "tc < tot" by auto
  from batch_task_ok [OF tc, of env year ident e n d w]
  obtain w1 where b: "batch_task env tot year ident e n d tc w = Return (tc + 1) w1"
    and f: "tile_calls w1 = tile_calls w @ [(e, n, d)]" "geo_log w1 = geo_log w"
      "session_total_tasks w1 = session_total_tasks w"
      "http_log w1 = http_log w @ [(clock w, base_url e n d year ident)]"
      "clock w1 = clock w + http_duration env (length (http_log w)) (base_url e n d year ident)
                    + DELAY"
    by blast
  from Cons.prems have "0 \<le> tc + 1" "tc + 1 + int (length ts) \<le> tot" by auto
  from Cons.IH [OF this, of w1]
  obtain w' where r: "run_tasks env tot year ident ts (tc + 1) w1
                        = Return (tc + 1 + int (length ts)) w'"
    and g: "tile_calls w' = tile_calls w1 @ ts" "geo_log w' = geo_log w1"
      "session_total_tasks w' = session_total_tasks w1"
      "length (http_log w') = length (http_log w1) + length ts"
      "k \<le> length (http_log w1) \<longrightarrow> paced k DELAY (http_log w1) (clock w1)
         \<longrightarrow> paced k DELAY (http_log w') (clock w')"
    by blast
  have p: "paced k DELAY (http_log w1) (clock w1)"
    if "k \<le> length (http_log w)" "paced k DELAY (http_log w) (clock w)"
    using paced_step [OF that, of "clock w + http_duration env (length (http_log w)) (base_url e n d year ident)"]
    by (simp add: f)
  from b r f g p show ?case
    by (simp add: t add.commute add.left_commute)
qed


lemma grid_tasks_product:
  "grid_tasks min_e max_e min_n max_n ds
     = List.product [min_e..max_e] (List.product [min_n..max_n] ds)"
  by (simp add: grid_tasks_def product_concat_map map_concat comp_def)

lemma length_grid_tasks:
  "length (grid_tasks min_e max_e min_n max_n ds)
     = nat (max_e - min_e + 1) * (nat (max_n - min_n + 1) * length ds)"
  by (simp add: grid_tasks_product)

lemma grid_tasks_total:
  assumes "grid_tasks min_e max_e min_n max_n ds \<noteq> []"
  shows "int (length (grid_tasks min_e max_e min_n max_n ds))
           = (max_e - min_e + 1) * (max_n - min_n + 1) * int (length ds)"
proof -
  from assms have "length (grid_tasks min_e max_e min_n max_n ds) \<noteq> 0" by simp
  then have "0 < max_e - min_e + 1" "0 < max_n - min_n + 1"
    by (auto simp: length_grid_tasks)
  then show ?thesis by (simp add: length_grid_tasks)
qed

lemma grid_tasks_region_total:
  assumes "min_e \<le> max_e" and "min_n \<le> max_n"
  shows "int (length (grid_tasks min_e max_e min_n max_n ds))
           = (max_e - min_e + 1) * (max_n - min_n + 1) * int (length ds)"
  using assms by (simp add: length_grid_tasks)

lemma distinct_displacements_of: "distinct (displacements_of c)"
  by (simp add: displacements_of_def)

lemma distinct_grid_tasks:
  "distinct ds \<Longrightarrow> distinct (grid_tasks min_e max_e min_n max_n ds)"
  by (simp add: grid_tasks_product distinct_product)

lemma set_grid_tasks:
  "set (grid_tasks min_e max_e min_n max_n ds) = {min_e..max_e} \<times> {min_n..max_n} \<times> set ds"
  by (simp add: grid_tasks_product)

lemma div_mod_block:
  fixes i m x :: nat
  assumes "x < m"
  shows "(i * m + x) div m = i" and "(i * m + x) mod m = x"
  using assms by simp_all

lemma row_major_index:
  fixes i j k H D :: nat
  assumes "j < H" and "k < D"
  shows "((i * H + j) * D + k) div (H * D) = i" and "((i * H + j) * D + k) mod (H * D) = j * D + k"
    and "(j * D + k) div D = j" and "(j * D + k) mod D = k" and "j * D + k < H * D"
proof -
  have "j * D + k < j * D + D" using assms by simp
  also have "\<dots> = Suc j * D" by simp
  also have "\<dots> \<le> H * D" using assms by (intro mult_le_mono1) simp
  finally show lt: "j * D + k < H * D" .
  have e: "(i * H + j) * D + k = i * (H * D) + (j * D + k)" by (simp add: algebra_simps)
  from lt show "((i * H + j) * D + k) div (H * D) = i" unfolding e by (rule div_mod_block)
  from lt show "((i * H + j) * D + k) mod (H * D) = j * D + k" unfolding e by (rule div_mod_block)
  from assms(2) show "(j * D + k) div D = j" by (rule div_mod_block)
  from assms(2) show "(j * D + k) mod D = k" by (rule div_mod_block)
qed

lemma grid_tasks_nth:
  assumes "int i \<le> max_e - min_e" and "int j \<le> max_n - min_n" and "k < length ds"
  shows "grid_tasks min_e max_e min_n max_n ds
           ! ((i * nat (max_n - min_n + 1) + j) * length ds + k)
         = (min_e + int i, min_n + int j, ds ! k)"
proof -
  let ?H = "nat (max_n - min_n + 1)" and ?D = "length ds"
  from assms have j: "j < ?H" by simp
  note rm = row_major_index [OF j assms(3)]
  from assms have i: "i < nat (max_e - min_e + 1)" by simp
  have "i * (?H * ?D) + (j * ?D + k) < i * (?H * ?D) + ?H * ?D" using rm(5) by simp
  also have "\<dots> = Suc i * (?H * ?D)" by simp
  also have "\<dots> \<le> nat (max_e - min_e + 1) * (?H * ?D)" using i by (intro mult_le_mono1) simp
  finally have lt: "(i * ?H + j) * ?D + k < length [min_e..max_e] * length (List.product [min_n..max_n] ds)"
    by (simp add: algebra_simps)
  from rm(5) have lt2: "j * ?D + k < length [min_n..max_n] * length ds" by simp
  from assms show ?thesis
    unfolding grid_tasks_product
    by (simp only: product_nth [OF lt] product_nth [OF lt2] length_product length_upto rm)
       simp
qed

lemma batch_download_run:
  "batch_download env min_e max_e min_n max_n disp_choice year ident w =
     (let ds = displacements_of disp_choice;
          tot = (max_e - min_e + 1) * (max_n - min_n + 1) * int (length ds)
      in case run_tasks env tot year ident (grid_tasks min_e max_e min_n max_n ds) 0
              (emit (Progress 0 ''Starting batch download...'') (w\<lparr>session_total_tasks := tot\<rparr>)) of
           Raise x w' \<Rightarrow> Raise x w'
         | Return _ w3 \<Rightarrow> progress_bar_progress 1 ''Batch download complete!'' w3)"
  by (simp add: batch_download_def for_e_run grid_tasks_def Let_def)

lemma paced_start: "paced (length lg) D lg now"
  by (simp add: paced_def)

lemma batch_download_ok:
  "\<exists>w'. batch_download env min_e max_e min_n max_n disp_choice year ident w = Return () w'
     \<and> tile_calls w' = tile_calls w @ grid_tasks min_e max_e min_n max_n (displacements_of disp_choice)
     \<and> last (ui w') = Progress 1 ''Batch download complete!''
     \<and> geo_log w' = geo_log w
     \<and> session_total_tasks w'
         = (max_e - min_e + 1) * (max_n - min_n + 1) * int (length (displacements_of disp_choice))
     \<and> length (http_log w')
         = length (http_log w) + length (grid_tasks min_e max_e min_n max_n (displacements_of disp_choice))
     \<and> paced (length (http_log w)) DELAY (http_log w') (clock w')"
proof -
  let ?ds = "displacements_of disp_choice"
  let ?g = "grid_tasks min_e max_e min_n max_n ?ds"
  let ?tot = "(max_e - min_e + 1) * (max_n - min_n + 1) * int (length ?ds)"
  let ?w2 = "emit (Progress 0 ''Starting batch download...'') (w\<lparr>session_total_tasks := ?tot\<rparr>)"
  have w2: "tile_calls ?w2 = tile_calls w" "geo_log ?w2 = geo_log w" "http_log ?w2 = http_log w"
    "clock ?w2 = clock w" "session_total_tasks ?w2 = ?tot"
    by (simp_all add: emit_def)
  have "\<exists>w3. run_tasks env ?tot year ident ?g 0 ?w2 = Return (int (length ?g)) w3
          \<and> tile_calls w3 = tile_calls w @ ?g \<and> geo_log w3 = geo_log w
          \<and> session_total_tasks w3 = ?tot
          \<and> length (http_log w3) = length (http_log w) + length ?g
          \<and> paced (length (http_log w)) DELAY (http_log w3) (clock w3)"
  proof (cases "?g = []")
    case True
    then show ?thesis by (simp add: w2 paced_start)
  next
    case False
    then have "(0::int) + int (length ?g) \<le> ?tot" by (simp add: grid_tasks_total)
    from run_tasks_ok [OF _ this, of env year ident ?w2 "length (http_log w)"]
    show ?thesis by (simp add: w2 paced_start)
  qed
  then obtain w3 where r: "run_tasks env ?tot year ident ?g 0 ?w2 = Return (int (length ?g)) w3"
    and f: "tile_calls w3 = tile_calls w @ ?g" "geo_log w3 = geo_log w"
      "session_total_tasks w3 = ?tot"
      "length (http_log w3) = length (http_log w) + length ?g"
      "paced (length (http_log w)) DELAY (http_log w3) (clock w3)"
    by blast
  from r f show ?thesis
    by (simp add: batch_download_run Let_def progress_bar_progress_def emit_def)
qed


text \<open>
  Claim C3. For a region with \<open>min_e \<le> max_e\<close> and \<open>min_n \<le> max_n\<close>, the tasks the
  batch download hands to \<^verbatim>\<open>download_tile\<close> are
  \<open>(max_e - min_e + 1) * (max_n - min_n + 1) * |displacements|\<close> many (the selection is
  never empty), no task occurs twice, they are exactly the combinations of the region
  with the displacements, and they come in row-major order: the task at position
  \<open>(i * height + j) * |displacements| + k\<close> is \<open>(min_e + i, min_n + j, displacements[k])\<close>.
\<close>

theorem batch_download_grid:
  assumes "min_e \<le> max_e" and "min_n \<le> max_n"
  shows "let ds = displacements_of disp_choice;
             r = batch_download env min_e max_e min_n max_n disp_choice year ident w;
             tasks = drop (length (tile_calls w)) (tile_calls (state_of r))
         in ds \<noteq> []
            \<and> int (length tasks) = (max_e - min_e + 1) * (max_n - min_n + 1) * int (length ds)
            \<and> distinct tasks
            \<and> set tasks = {min_e..max_e} \<times> {min_n..max_n} \<times> set ds
            \<and> tasks = grid_tasks min_e max_e min_n max_n ds
            \<and> (\<forall>i j k. int i \<le> max_e - min_e \<and> int j \<le> max_n - min_n \<and> k < length ds \<longrightarrow>
                  tasks ! ((i * nat (max_n - min_n + 1) + j) * length ds + k)
                    = (min_e + int i, min_n + int j, ds ! k))"
proof -
  let ?ds = "displacements_of disp_choice"
  from batch_download_ok [of env min_e max_e min_n max_n disp_choice year ident w]
  obtain w' where r: "batch_download env min_e max_e min_n max_n disp_choice year ident w = Return () w'"
    and t: "tile_calls w' = tile_calls w @ grid_tasks min_e max_e min_n max_n ?ds"
    by blast
  have "?ds \<noteq> []" by (simp add: displacements_of_def)
  moreover note grid_tasks_region_total [OF assms, of ?ds]
    distinct_grid_tasks [OF distinct_displacements_of, of min_e max_e min_n max_n disp_choice]
    set_grid_tasks [of min_e max_e min_n max_n ?ds]
  moreover have "grid_tasks min_e max_e min_n max_n ?ds
                   ! ((i * nat (max_n - min_n + 1) + j) * length ?ds + k)
                 = (min_e + int i, min_n + int j, ?ds ! k)"
    if "int i \<le> max_e - min_e" "int j \<le> max_n - min_n" "k < length ?ds" for i j k
    using that by (rule grid_tasks_nth)
  ultimately show ?thesis by (simp add: r t Let_def)
qed

theorem batch_download_grid_witness:
  "drop (length (tile_calls (demo_world Map.empty)))
     (tile_calls (state_of (batch_download demo_env 10 11 25 26 ''Both'' ''2019_2023'' ''key''
                              (demo_world Map.empty))))
   = [(10, 25, ''E''), (10, 25, ''U''), (10, 26, ''E''), (10, 26, ''U''),
      (11, 25, ''E''), (11, 25, ''U''), (11, 26, ''E''), (11, 26, ''U'')]"
proof -
  have g: "grid_tasks 10 11 25 26 (displacements_of ''Both'')
           = [(10, 25, ''E''), (10, 25, ''U''), (10, 26, ''E''), (10, 26, ''U''),
              (11, 25, ''E''), (11, 25, ''U''), (11, 26, ''E''), (11, 26, ''U'')]"
    by code_simp
  have "(10::int) \<le> 11" and "(25::int) \<le> 26" by simp_all
  from batch_download_grid [OF this, of "''Both''" demo_env "''2019_2023''" "''key''"
         "demo_world Map.empty"]
  show ?thesis by (simp add: Let_def g)
qed

text \<open>
  Claim C4. Whatever the archive answers, the batch download does not stop early: it
  returns, the tasks attempted are all tasks of the grid (as many as the total it
  declared in the session state, for a region that is not empty), and the last
  progress it emits is exactly 1.
\<close>

theorem batch_download_completes:
  "let r = batch_download env min_e max_e min_n max_n disp_choice year ident w;
       tasks = drop (length (tile_calls w)) (tile_calls (state_of r))
   in is_return r
      \<and> tasks = grid_tasks min_e max_e min_n max_n (displacements_of disp_choice)
      \<and> (min_e \<le> max_e \<and> min_n \<le> max_n \<longrightarrow>
            int (length tasks) = session_total_tasks (state_of r))
      \<and> last (ui (state_of r)) = Progress 1 ''Batch download complete!''"
proof -
  from batch_download_ok [of env min_e max_e min_n max_n disp_choice year ident w]
  obtain w' where r: "batch_download env min_e max_e min_n max_n disp_choice year ident w = Return () w'"
    and t: "tile_calls w' = tile_calls w @ grid_tasks min_e max_e min_n max_n (displacements_of disp_choice)"
      "last (ui w') = Progress 1 ''Batch download complete!''"
      "session_total_tasks w'
         = (max_e - min_e + 1) * (max_n - min_n + 1) * int (length (displacements_of disp_choice))"
    by blast
  show ?thesis
    by (simp add: r t Let_def grid_tasks_region_total)
qed

theorem batch_download_completes_witness:
  "is_return (batch_download demo_env 10 11 25 26 ''Both'' ''2019_2023'' ''key'' (demo_world Map.empty))
   \<and> length (tile_calls (state_of (batch_download demo_env 10 11 25 26 ''Both'' ''2019_2023'' ''key''
                                      (demo_world Map.empty)))) = 8
   \<and> session_total_tasks (state_of (batch_download demo_env 10 11 25 26 ''Both'' ''2019_2023'' ''key''
                                      (demo_world Map.empty))) = 8
   \<and> last (ui (state_of (batch_download demo_env 10 11 25 26 ''Both'' ''2019_2023'' ''key''
                            (demo_world Map.empty))))
       = Progress 1 ''Batch download complete!''"
proof -
  have g: "length (grid_tasks 10 11 25 26 (displacements_of ''Both'')) = 8"
    by code_simp
  have w: "tile_calls (demo_world Map.empty) = []"
    by (simp add: demo_world_def)
  let ?r = "batch_download demo_env 10 11 25 26 ''Both'' ''2019_2023'' ''key'' (demo_world Map.empty)"
  from batch_download_completes [of demo_env 10 11 25 26 "''Both''" "''2019_2023''" "''key''"
         "demo_world Map.empty"]
  have a: "is_return ?r"
    and b: "tile_calls (state_of ?r) = grid_tasks 10 11 25 26 (displacements_of ''Both'')"
    and c: "int (length (tile_calls (state_of ?r))) = session_total_tasks (state_of ?r)"
    and d: "last (ui (state_of ?r)) = Progress 1 ''Batch download complete!''"
    unfolding Let_def w by auto
  from b g have "length (tile_calls (state_of ?r)) = 8" by simp
  with a c [symmetric] d show ?thesis by simp
qed

section \<open>Properties of the location lookup\<close>

text \<open>
  Claim C7. The location lookup never raises to its caller. With a coordinate that is
  \<^verbatim>\<open>None\<close> it returns \<open>Unknown location\<close> and leaves the state as it was, so no
  request is sent; when the geocoder raises, it returns \<open>Geocoding error\<close>.
\<close>

theorem get_location_name_never_raises:
  "is_return (get_location_name env latitude longitude w)
   \<and> (latitude = None \<or> longitude = None \<longrightarrow>
         get_location_name env latitude longitude w = Return ''Unknown location'' w)
   \<and> (\<forall>lat lon x. latitude = Some lat \<and> longitude = Some lon
         \<and> reverse env (length (geo_log w)) (lat, lon) = Inl x \<longrightarrow>
           value_of (get_location_name env latitude longitude w) = Some ''Geocoding error'')"
  by (auto simp: get_location_name_def get_location_name_try_def Let_def
        split: option.splits sum.splits)

theorem get_location_name_never_raises_witness:
  "get_location_name demo_env None (Some 5) (demo_world Map.empty)
     = Return ''Unknown location'' (demo_world Map.empty)
   \<and> value_of (get_location_name demo_env (Some 0) (Some 5) (demo_world Map.empty))
       = Some ''Geocoding error''"
proof -
  have h: "reverse demo_env (length (geo_log (demo_world Map.empty))) (0, 5)
           = Inl (Exc ''GeocoderTimedOut'' ''Service timed out'')"
    by (simp add: demo_env_def)
  from get_location_name_never_raises [of demo_env None "Some 5" "demo_world Map.empty"]
    get_location_name_never_raises [of demo_env "Some 0" "Some 5" "demo_world Map.empty"] h
  show ?thesis by simp
qed

section \<open>Properties of the enrichment\<close>

subsection \<open>The output path is not the input path\<close>

lemma basename_no_sep: "CHR ''/'' \<notin> set (basename p)"
  by (auto simp: basename_def dest: set_takeWhileD)

lemma basename_append:
  assumes "CHR ''/'' \<notin> set s"
  shows "basename (a @ CHR ''/'' # s) = s"
proof -
  have "takeWhile (\<lambda>c. c \<noteq> CHR ''/'') (rev s @ CHR ''/'' # rev a) = rev s"
    using assms by (auto simp: takeWhile_tail)
  then show ?thesis by (simp add: basename_def)
qed

lemma splitext_parts:
  "fst (splitext p) @ snd (splitext p) = p"
  by (simp add: splitext_def Let_def split: list.splits)

lemma splitext_ext:
  "snd (splitext p) = [] \<or> hd (snd (splitext p)) = CHR ''.''"
proof -
  define name where "name = takeWhile (\<lambda>c. c \<noteq> CHR ''/'') (rev p)"
  define ext where "ext = takeWhile (\<lambda>c. c \<noteq> CHR ''.'') name"
  define rest where "rest = dropWhile (\<lambda>c. c \<noteq> CHR ''/'') (rev p)"
  have s: "splitext p =
             (case dropWhile (\<lambda>c. c \<noteq> CHR ''.'') name of
                [] \<Rightarrow> (p, [])
              | dot # stem_rev \<Rightarrow>
                  if filter (\<lambda>c. c \<noteq> CHR ''.'') stem_rev \<noteq> []
                  then (take (length p - Suc (length ext)) p, drop (length p - Suc (length ext)) p)
                  else (p, []))"
    unfolding ext_def name_def splitext_def Let_def by (rule refl)
  show ?thesis
  proof (cases "dropWhile (\<lambda>c. c \<noteq> CHR ''.'') name")
    case Nil
    show ?thesis unfolding s Nil by simp
  next
    case (Cons dot stem)
    from Cons have dot: "dot = CHR ''.''"
      using hd_dropWhile [of "\<lambda>c. c \<noteq> CHR ''.''" name] by auto
    have n: "name = ext @ dot # stem"
      using takeWhile_dropWhile_id [of "\<lambda>c. c \<noteq> CHR ''.''" name]
      unfolding Cons ext_def by simp
    have "rev p = name @ rest" by (simp add: name_def rest_def)
    then have "rev (rev p) = rev (name @ rest)" by (rule arg_cong)
    then have p: "p = (rev rest @ rev stem) @ dot # rev ext"
      unfolding n by simp
    have "drop (length p - Suc (length ext)) p = dot # rev ext"
      by (subst (2) p, subst (1) p) simp
    with dot show ?thesis unfolding s Cons by simp
  qed
qed

lemma output_file_of_eq:
  "output_file_of p = ''Point_locations/'' @ fst (splitext (basename p)) @ ''_locations.csv''"
proof -
  let ?stem = "fst (splitext (basename p))"
  have "set ?stem \<subseteq> set (basename p)"
    using splitext_parts [of "basename p"] by (metis Un_upper1 set_append)
  then have "CHR ''/'' \<notin> set ?stem" using basename_no_sep [of p] by auto
  then have "hd (?stem @ ''_locations.csv'') \<noteq> CHR ''/''"
    by (cases ?stem) auto
  then show ?thesis
    by (simp add: output_file_of_def path_join_def NAMES_DATASETS_DIR_def)
qed

lemma output_file_of_neq: "output_file_of p \<noteq> p"
proof
  let ?stem = "fst (splitext (basename p))"
  assume "output_file_of p = p"
  then have p: "p = ''Point_locations'' @ CHR ''/'' # (?stem @ ''_locations.csv'')"
    by (simp add: output_file_of_eq)
  have "set ?stem \<subseteq> set (basename p)"
    using splitext_parts [of "basename p"] by (metis Un_upper1 set_append)
  then have "CHR ''/'' \<notin> set (?stem @ ''_locations.csv'')"
    using basename_no_sep [of p] by auto
  then have "basename (''Point_locations'' @ CHR ''/'' # (?stem @ ''_locations.csv''))
               = ?stem @ ''_locations.csv''"
    by (rule basename_append)
  with p have "basename p = ?stem @ ''_locations.csv''" by simp
  with splitext_parts [of "basename p"] have "snd (splitext (basename p)) = ''_locations.csv''"
    by (metis same_append_eq)
  with splitext_ext [of "basename p"] show False by simp
qed


subsection \<open>One row, and the loop over the rows\<close>

lemma paced_idle: "paced k D lg now \<Longrightarrow> now \<le> now' \<Longrightarrow> paced k D lg now'"
  by (auto simp: paced_def list_all_iff)

lemma convert_coordinates_frame:
  "files (snd (convert_coordinates env ea no t w)) = files w
   \<and> geo_log (snd (convert_coordinates env ea no t w)) = geo_log w
   \<and> http_log (snd (convert_coordinates env ea no t w)) = http_log w
   \<and> clock (snd (convert_coordinates env ea no t w)) = clock w
   \<and> (non_numeric env ea \<or> non_numeric env no \<longrightarrow>
         fst (convert_coordinates env ea no t w) = (None, None))"
  by (auto simp: convert_coordinates_def init_transformer_def convert_coordinates_try_def
        non_numeric_def emit_def Let_def split: option.splits sum.splits prod.splits)

lemma get_location_name_frame:
  "is_return (get_location_name env la lo w)
   \<and> files (state_of (get_location_name env la lo w)) = files w
   \<and> http_log (state_of (get_location_name env la lo w)) = http_log w
   \<and> (la = None \<or> lo = None \<longrightarrow>
         value_of (get_location_name env la lo w) = Some ''Unknown location'')"
  by (auto simp: get_location_name_def get_location_name_try_def emit_def Let_def
        split: option.splits sum.splits)

lemma get_location_name_paced:
  assumes "k \<le> length (geo_log w)" and "paced k D (geo_log w) (clock w)"
  shows "paced k D (geo_log (state_of (get_location_name env la lo w)))
           (clock (state_of (get_location_name env la lo w)) + D)
         \<and> k \<le> length (geo_log (state_of (get_location_name env la lo w)))"
proof (cases "la = None \<or> lo = None")
  case True
  with assms paced_idle [OF assms(2), of "clock w + D"] show ?thesis
    by (auto simp: get_location_name_def split: option.splits)
next
  case False
  then obtain x y where xy: "la = Some x" "lo = Some y" by auto
  let ?dur = "reverse_duration env (length (geo_log w)) (x, y)"
  from paced_step [OF assms, of "clock w + ?dur" "(x, y)"]
  have "paced k D (geo_log w @ [(clock w, x, y)]) (clock w + ?dur + D)" by simp
  with assms(1) show ?thesis
    by (simp add: xy get_location_name_def get_location_name_try_def emit_def Let_def
          split: option.splits sum.splits)
qed

lemma enrich_row_effect:
  assumes "i < tot"
  shows "let r = enrich_row env t p e n tot out i row w
         in (wide_row p e n row \<longrightarrow>
               is_return r
               \<and> (\<exists>loc. files (state_of r)
                           = (files w)(out \<mapsto> read_file w out @ csv_writerow env (out_row p e n row loc))
                        \<and> (non_numeric env (row ! e) \<or> non_numeric env (row ! n) \<longrightarrow>
                             loc = ''Unknown location'')))
            \<and> (\<not> wide_row p e n row \<longrightarrow>
                 r = Raise (Exc ''IndexError'' ''list index out of range'') (state_of r)
                 \<and> files (state_of r) = files w)
            \<and> http_log (state_of r) = http_log w
            \<and> (k \<le> length (geo_log w) \<longrightarrow> paced k GEOCODE_DELAY (geo_log w) (clock w) \<longrightarrow>
                 paced k GEOCODE_DELAY (geo_log (state_of r)) (clock (state_of r))
                 \<and> k \<le> length (geo_log (state_of r)))"
proof (cases "e < length row \<and> n < length row")
  case False
  then show ?thesis
    by (auto simp: enrich_row_def py_index_def wide_row_def Let_def)
next
  case True
  let ?c = "convert_coordinates env (row ! e) (row ! n) t w"
  obtain lat lon w1 where c: "?c = ((lat, lon), w1)"
    by (metis prod.exhaust)
  from convert_coordinates_frame [of env "row ! e" "row ! n" t w] c
  have w1: "files w1 = files w" "geo_log w1 = geo_log w" "http_log w1 = http_log w"
    "clock w1 = clock w"
    and nn: "non_numeric env (row ! e) \<or> non_numeric env (row ! n) \<Longrightarrow> lat = None \<and> lon = None"
    by simp_all
  from get_location_name_frame [of env lat lon w1]
  obtain loc w2 where g: "get_location_name env lat lon w1 = Return loc w2"
    by (auto dest: is_returnE)
  with get_location_name_frame [of env lat lon w1] w1
  have w2: "files w2 = files w" "http_log w2 = http_log w"
    and un: "lat = None \<or> lon = None \<Longrightarrow> loc = ''Unknown location''"
    by simp_all
  have pc: "paced k GEOCODE_DELAY (geo_log w2) (clock w2 + GEOCODE_DELAY) \<and> k \<le> length (geo_log w2)"
    if "k \<le> length (geo_log w)" "paced k GEOCODE_DELAY (geo_log w) (clock w)"
    using get_location_name_paced [of k w1 GEOCODE_DELAY env lat lon] that g w1 by simp
  have pr: "\<And>txt w'. progress_bar_progress ((1 + of_nat i) / of_nat tot) txt (w' :: 'a world)
              = Return () (emit (Progress ((1 + of_nat i) / of_nat tot) txt) w')"
    using assms by (simp add: progress_bar_progress_def)
  from assms have t0: "tot \<noteq> 0" by simp
  show ?thesis
  proof (cases "p < length row")
    case False
    with True c g w2 pc show ?thesis
      by (simp add: enrich_row_def py_index_def wide_row_def Let_def sleep_def)
  next
    case p: True
    from nn un have "non_numeric env (row ! e) \<or> non_numeric env (row ! n) \<Longrightarrow> loc = ''Unknown location''"
      by blast
    with True p c g w2 pc t0 show ?thesis
      by (auto simp: enrich_row_def py_index_def wide_row_def Let_def sleep_def truediv_def pr
            writerow_def emit_def read_file_def out_row_def add.commute)
  qed
qed


lemma enrich_rows_effect:
  assumes "i + length rows \<le> tot" and "files w out = Some b"
  shows "let r = enrich_rows env t p e n tot out i rows w;
             good = takeWhile (wide_row p e n) rows
         in (\<exists>locs. length locs = length good
               \<and> files (state_of r)
                   = (files w)(out \<mapsto> b @ concat (map (csv_writerow env) (map2 (out_row p e n) good locs)))
               \<and> (\<forall>j<length good.
                     non_numeric env (good ! j ! e) \<or> non_numeric env (good ! j ! n) \<longrightarrow>
                       locs ! j = ''Unknown location''))
            \<and> (list_all (wide_row p e n) rows \<longrightarrow> is_return r)
            \<and> (\<not> list_all (wide_row p e n) rows \<longrightarrow>
                 r = Raise (Exc ''IndexError'' ''list index out of range'') (state_of r))
            \<and> http_log (state_of r) = http_log w
            \<and> (k \<le> length (geo_log w) \<longrightarrow> paced k GEOCODE_DELAY (geo_log w) (clock w) \<longrightarrow>
                 paced k GEOCODE_DELAY (geo_log (state_of r)) (clock (state_of r))
                 \<and> k \<le> length (geo_log (state_of r)))"
  using assms
proof (induction rows arbitrary: i w b)
  case Nil
  from Nil.prems(2) have "(files w)(out \<mapsto> b) = files w" by (rule map_upd_triv)
  then have "files w
      = (files w)(out \<mapsto> b @ concat (map (csv_writerow env) (map2 (out_row p e n) [] [])))"
    by simp
  then have "\<exists>locs. length locs = length (takeWhile (wide_row p e n) [])
      \<and> files w
          = (files w)(out \<mapsto> b @ concat (map (csv_writerow env)
               (map2 (out_row p e n) (takeWhile (wide_row p e n) []) locs)))
      \<and> (\<forall>j<length (takeWhile (wide_row p e n) []).
            non_numeric env (takeWhile (wide_row p e n) [] ! j ! e)
            \<or> non_numeric env (takeWhile (wide_row p e n) [] ! j ! n)
              \<longrightarrow> locs ! j = ''Unknown location'')"
    by (intro exI [of _ "[]"]) simp
  then show ?case unfolding Let_def enrich_rows.simps state_of.simps
    by (intro conjI) simp_all
next
  case (Cons row rows)
  let ?r1 = "enrich_row env t p e n tot out i row w"
  from Cons.prems have i: "i < tot" by simp
  note row = enrich_row_effect [OF i, of env t p e n out row w k, unfolded Let_def]
  show ?case
  proof (cases "wide_row p e n row")
    case False
    define w1 where "w1 = state_of ?r1"
    with False row have r1: "?r1 = Raise (Exc ''IndexError'' ''list index out of range'') w1"
      and f1: "files w1 = files w" and h1: "http_log w1 = http_log w"
      and p1: "k \<le> length (geo_log w) \<longrightarrow> paced k GEOCODE_DELAY (geo_log w) (clock w) \<longrightarrow>
                 paced k GEOCODE_DELAY (geo_log w1) (clock w1) \<and> k \<le> length (geo_log w1)"
      by simp_all
    from Cons.prems(2) have "(files w)(out \<mapsto> b) = files w" by (rule map_upd_triv)
    with False f1 have "files w1
        = (files w)(out \<mapsto> b @ concat (map (csv_writerow env)
             (map2 (out_row p e n) (takeWhile (wide_row p e n) (row # rows)) [])))"
      by simp
    with False have ex: "\<exists>locs. length locs = length (takeWhile (wide_row p e n) (row # rows))
        \<and> files w1
            = (files w)(out \<mapsto> b @ concat (map (csv_writerow env)
                 (map2 (out_row p e n) (takeWhile (wide_row p e n) (row # rows)) locs)))
        \<and> (\<forall>j<length (takeWhile (wide_row p e n) (row # rows)).
              non_numeric env (takeWhile (wide_row p e n) (row # rows) ! j ! e)
              \<or> non_numeric env (takeWhile (wide_row p e n) (row # rows) ! j ! n)
                \<longrightarrow> locs ! j = ''Unknown location'')"
      by (intro exI [of _ "[]"]) simp
    from False have na: "\<not> list_all (wide_row p e n) (row # rows)" by simp
    have e: "enrich_rows env t p e n tot out i (row # rows) w
               = Raise (Exc ''IndexError'' ''list index out of range'') w1"
      by (simp add: r1)
    from ex na h1 p1 show ?thesis
      unfolding Let_def e state_of.simps by blast
  next
    case True
    with row obtain w1 where r1: "?r1 = Return () w1"
      by (auto dest: is_returnE)
    from row True r1 obtain loc where
      f1: "files w1 = (files w)(out \<mapsto> read_file w out @ csv_writerow env (out_row p e n row loc))"
      and u1: "non_numeric env (row ! e) \<or> non_numeric env (row ! n) \<Longrightarrow> loc = ''Unknown location''"
      by auto
    from row r1 have h1: "http_log w1 = http_log w"
      and p1: "k \<le> length (geo_log w) \<Longrightarrow> paced k GEOCODE_DELAY (geo_log w) (clock w) \<Longrightarrow>
                 paced k GEOCODE_DELAY (geo_log w1) (clock w1) \<and> k \<le> length (geo_log w1)"
      by simp_all
    let ?b1 = "b @ csv_writerow env (out_row p e n row loc)"
    from f1 Cons.prems(2) have b1: "files w1 out = Some ?b1"
      by (simp add: read_file_def)
    from Cons.prems(1) have "Suc i + length rows \<le> tot" by simp
    note ih = Cons.IH [OF this b1, unfolded Let_def]
    let ?r = "enrich_rows env t p e n tot out (Suc i) rows w1"
    let ?good = "takeWhile (wide_row p e n) rows"
    from ih obtain locs where
      l: "length locs = length ?good"
      and f: "files (state_of ?r)
                = (files w1)(out \<mapsto> ?b1 @ concat (map (csv_writerow env) (map2 (out_row p e n) ?good locs)))"
      and u: "\<forall>j<length ?good.
                 non_numeric env (?good ! j ! e) \<or> non_numeric env (?good ! j ! n) \<longrightarrow>
                   locs ! j = ''Unknown location''"
      by blast
    have e: "enrich_rows env t p e n tot out i (row # rows) w = ?r"
      by (simp add: r1)
    have "length (loc # locs) = length (takeWhile (wide_row p e n) (row # rows))"
      using True l by simp
    moreover have "files (state_of ?r)
        = (files w)(out \<mapsto> b @ concat (map (csv_writerow env)
             (map2 (out_row p e n) (takeWhile (wide_row p e n) (row # rows)) (loc # locs))))"
      using True f f1 by simp
    moreover have "\<forall>j<length (takeWhile (wide_row p e n) (row # rows)).
        non_numeric env (takeWhile (wide_row p e n) (row # rows) ! j ! e)
        \<or> non_numeric env (takeWhile (wide_row p e n) (row # rows) ! j ! n)
          \<longrightarrow> (loc # locs) ! j = ''Unknown location''"
      using True u u1 by (auto simp: nth_Cons split: nat.splits)
    ultimately have ex: "\<exists>locs'. length locs' = length (takeWhile (wide_row p e n) (row # rows))
        \<and> files (state_of ?r)
            = (files w)(out \<mapsto> b @ concat (map (csv_writerow env)
                 (map2 (out_row p e n) (takeWhile (wide_row p e n) (row # rows)) locs')))
        \<and> (\<forall>j<length (takeWhile (wide_row p e n) (row # rows)).
              non_numeric env (takeWhile (wide_row p e n) (row # rows) ! j ! e)
              \<or> non_numeric env (takeWhile (wide_row p e n) (row # rows) ! j ! n)
                \<longrightarrow> locs' ! j = ''Unknown location'')"
      by blast
    from ih h1 p1 True have rest:
      "(list_all (wide_row p e n) (row # rows) \<longrightarrow> is_return ?r)
       \<and> (\<not> list_all (wide_row p e n) (row # rows) \<longrightarrow>
             ?r = Raise (Exc ''IndexError'' ''list index out of range'') (state_of ?r))
       \<and> http_log (state_of ?r) = http_log w
       \<and> (k \<le> length (geo_log w) \<longrightarrow> paced k GEOCODE_DELAY (geo_log w) (clock w) \<longrightarrow>
             paced k GEOCODE_DELAY (geo_log (state_of ?r)) (clock (state_of ?r))
             \<and> k \<le> length (geo_log (state_of ?r)))"
      by simp
    from ex rest show ?thesis
      unfolding Let_def e by blast
  qed
qed


lemma valid_headerD:
  assumes "valid_header env w input_file header rows p e n"
  obtains bytes where "files w input_file = Some bytes" and "csv_reader env bytes = header # rows"
    and "index_of ''pid'' (map str_lower header) = Some p"
    and "index_of ''easting'' (map str_lower header) = Some e"
    and "index_of ''northing'' (map str_lower header) = Some n"
  using assms by (auto simp: valid_header_def split: option.splits)

lemma enrich_try_valid:
  assumes "valid_header env w input_file header rows p e n" and "out \<noteq> input_file"
  shows "let r = enrich_try env input_file out t w;
             good = takeWhile (wide_row p e n) rows
         in (\<exists>locs. length locs = length good
               \<and> files (state_of r)
                   = (files w)(out \<mapsto> concat (map (csv_writerow env)
                        (header_out # map2 (out_row p e n) good locs)))
               \<and> (\<forall>j<length good.
                     non_numeric env (good ! j ! e) \<or> non_numeric env (good ! j ! n) \<longrightarrow>
                       locs ! j = ''Unknown location''))
            \<and> (list_all (wide_row p e n) rows \<longrightarrow> r = Return (Some out) (state_of r))
            \<and> (\<not> list_all (wide_row p e n) rows \<longrightarrow>
                 r = Raise (Exc ''IndexError'' ''list index out of range'') (state_of r))
            \<and> http_log (state_of r) = http_log w
            \<and> (k \<le> length (geo_log w) \<longrightarrow> paced k GEOCODE_DELAY (geo_log w) (clock w) \<longrightarrow>
                 paced k GEOCODE_DELAY (geo_log (state_of r)) (clock (state_of r))
                 \<and> k \<le> length (geo_log (state_of r)))"
proof -
  from assms(1) obtain bytes where
    b: "files w input_file = Some bytes" "csv_reader env bytes = header # rows"
      "index_of ''pid'' (map str_lower header) = Some p"
      "index_of ''easting'' (map str_lower header) = Some e"
      "index_of ''northing'' (map str_lower header) = Some n"
    by (rule valid_headerD)
  define w3 where "w3 = writerow env out header_out
     (w\<lparr>files := (files w)(out \<mapsto> []),
        enrich_status := ''Found columns: pid='' @ header ! p @ '', easting='' @ header ! e
                           @ '', northing='' @ header ! n\<rparr>)"
  let ?rows = "enrich_rows env t p e n (length rows) out 0 rows w3"
  have t: "enrich_try env input_file out t w =
             (case ?rows of
                Raise x w' \<Rightarrow> Raise x w'
              | Return _ w4 \<Rightarrow>
                  Return (Some out) (emit (St_success (''Location dataset saved as: '' @ out)) w4))"
    using b assms(2)
    by (simp add: enrich_try_def Let_def read_file_def w3_def header_out_def)
  have w3: "files w3 = (files w)(out \<mapsto> csv_writerow env header_out)"
    "http_log w3 = http_log w" "geo_log w3 = geo_log w" "clock w3 = clock w"
    by (simp_all add: w3_def writerow_def read_file_def)
  then have o: "files w3 out = Some (csv_writerow env header_out)" by simp
  have "0 + length rows \<le> length rows" by simp
  note eff = enrich_rows_effect [OF this o, of env t p e n k, unfolded Let_def w3]
  let ?good = "takeWhile (wide_row p e n) rows"
  from eff obtain locs where
    l: "length locs = length ?good"
    and f: "files (state_of ?rows)
              = (files w)(out \<mapsto> concat (map (csv_writerow env)
                   (header_out # map2 (out_row p e n) ?good locs)))"
    and u: "\<forall>j<length ?good.
               non_numeric env (?good ! j ! e) \<or> non_numeric env (?good ! j ! n) \<longrightarrow>
                 locs ! j = ''Unknown location''"
    by auto
  from eff have h: "http_log (state_of ?rows) = http_log w"
    and pc: "k \<le> length (geo_log w) \<longrightarrow> paced k GEOCODE_DELAY (geo_log w) (clock w) \<longrightarrow>
               paced k GEOCODE_DELAY (geo_log (state_of ?rows)) (clock (state_of ?rows))
               \<and> k \<le> length (geo_log (state_of ?rows))"
    by simp_all
  show ?thesis
  proof (cases "list_all (wide_row p e n) rows")
    case True
    with eff obtain w4 where r: "?rows = Return () w4" by (auto dest: is_returnE)
    from r f h pc have
      "files (emit (St_success (''Location dataset saved as: '' @ out)) w4)
         = (files w)(out \<mapsto> concat (map (csv_writerow env)
              (header_out # map2 (out_row p e n) ?good locs)))"
      "http_log (emit (St_success (''Location dataset saved as: '' @ out)) w4) = http_log w"
      "k \<le> length (geo_log w) \<longrightarrow> paced k GEOCODE_DELAY (geo_log w) (clock w) \<longrightarrow>
         paced k GEOCODE_DELAY (geo_log (emit (St_success (''Location dataset saved as: '' @ out)) w4))
           (clock (emit (St_success (''Location dataset saved as: '' @ out)) w4))
         \<and> k \<le> length (geo_log (emit (St_success (''Location dataset saved as: '' @ out)) w4))"
      by (simp_all add: emit_def)
    with True l u show ?thesis
      unfolding Let_def t r outcome.case state_of.simps by blast
  next
    case False
    with eff obtain w4 where
      r: "?rows = Raise (Exc ''IndexError'' ''list index out of range'') w4"
      by auto
    from r f h pc have
      "files w4 = (files w)(out \<mapsto> concat (map (csv_writerow env)
              (header_out # map2 (out_row p e n) ?good locs)))"
      "http_log w4 = http_log w"
      "k \<le> length (geo_log w) \<longrightarrow> paced k GEOCODE_DELAY (geo_log w) (clock w) \<longrightarrow>
         paced k GEOCODE_DELAY (geo_log w4) (clock w4) \<and> k \<le> length (geo_log w4)"
      by simp_all
    with False l u show ?thesis
      unfolding Let_def t r outcome.case state_of.simps by blast
  qed
qed

subsection \<open>The run on a file with a valid header\<close>

lemma enrich_unfold:
  assumes "files w input_file \<noteq> None"
  obtains t w3 where
    "enrich_dataset_with_locations env input_file w =
       (case enrich_try env input_file (output_file_of input_file) t w3 of
          Raise x w' \<Rightarrow>
            Return None
              (emit (St_error (format_exc env x))
                 (emit (St_error (''Error processing CSV: '' @ exc_str x)) w'))
        | Return r w' \<Rightarrow> Return r w')"
    and "files w3 = files w" and "http_log w3 = http_log w" and "geo_log w3 = geo_log w"
    and "clock w3 = clock w"
proof -
  obtain t w2 where i: "init_transformer env (makedirs NAMES_DATASETS_DIR w) = (t, w2)"
    by (metis prod.exhaust)
  define w3 where "w3 = (case t of
      None \<Rightarrow> emit (St_warning ''Using approximate coordinate conversion'') w2
    | Some _ \<Rightarrow> w2)"
  from i have "files w2 = files w" "http_log w2 = http_log w" "geo_log w2 = geo_log w"
    "clock w2 = clock w"
    by (auto simp: init_transformer_def makedirs_def emit_def split: sum.splits)
  then have "files w3 = files w" "http_log w3 = http_log w" "geo_log w3 = geo_log w"
    "clock w3 = clock w"
    by (simp_all add: w3_def emit_def split: option.splits)
  moreover from assms obtain y where "files w input_file = Some y" by auto
  with i have "enrich_dataset_with_locations env input_file w =
       (case enrich_try env input_file (output_file_of input_file) t w3 of
          Raise x w' \<Rightarrow>
            Return None
              (emit (St_error (format_exc env x))
                 (emit (St_error (''Error processing CSV: '' @ exc_str x)) w'))
        | Return r w' \<Rightarrow> Return r w')"
    by (simp add: enrich_dataset_with_locations_def Let_def w3_def)
  ultimately show thesis using that by blast
qed

lemma valid_header_files:
  "files w' = files w \<Longrightarrow> valid_header env w' input_file header rows p e n
     = valid_header env w input_file header rows p e n"
  by (simp add: valid_header_def)

lemma enrich_valid:
  assumes "valid_header env w input_file header rows p e n"
  shows "let r = enrich_dataset_with_locations env input_file w;
             out = output_file_of input_file;
             good = takeWhile (wide_row p e n) rows
         in (\<exists>locs. length locs = length good
               \<and> files (state_of r)
                   = (files w)(out \<mapsto> concat (map (csv_writerow env)
                        (header_out # map2 (out_row p e n) good locs)))
               \<and> (\<forall>j<length good.
                     non_numeric env (good ! j ! e) \<or> non_numeric env (good ! j ! n) \<longrightarrow>
                       locs ! j = ''Unknown location''))
            \<and> (list_all (wide_row p e n) rows \<longrightarrow> value_of r = Some (Some out))
            \<and> (\<not> list_all (wide_row p e n) rows \<longrightarrow>
                 value_of r = Some None
                 \<and> (\<exists>evs. ui (state_of r)
                      = evs @ [St_error ''Error processing CSV: list index out of range'',
                               St_error (format_exc env (Exc ''IndexError'' ''list index out of range''))]))
            \<and> http_log (state_of r) = http_log w
            \<and> paced (length (geo_log w)) GEOCODE_DELAY (geo_log (state_of r)) (clock (state_of r))"
proof -
  let ?out = "output_file_of input_file"
  let ?good = "takeWhile (wide_row p e n) rows"
  from assms have "files w input_file \<noteq> None"
    by (auto simp: valid_header_def split: option.splits)
  then obtain t w3 where
    u: "enrich_dataset_with_locations env input_file w =
       (case enrich_try env input_file ?out t w3 of
          Raise x w' \<Rightarrow>
            Return None
              (emit (St_error (format_exc env x))
                 (emit (St_error (''Error processing CSV: '' @ exc_str x)) w'))
        | Return r w' \<Rightarrow> Return r w')"
    and w3: "files w3 = files w" "http_log w3 = http_log w" "geo_log w3 = geo_log w"
      "clock w3 = clock w"
    by (rule enrich_unfold)
  from assms have v: "valid_header env w3 input_file header rows p e n"
    by (simp only: valid_header_files [OF w3(1)])
  let ?t = "enrich_try env input_file ?out t w3"
  note tv = enrich_try_valid [OF v output_file_of_neq, of t "length (geo_log w)",
      unfolded Let_def w3]
  from tv [THEN conjunct1] obtain locs where
    l: "length locs = length ?good"
    and f: "files (state_of ?t)
              = (files w)(?out \<mapsto> concat (map (csv_writerow env)
                   (header_out # map2 (out_row p e n) ?good locs)))"
    and n: "\<forall>j<length ?good.
               non_numeric env (?good ! j ! e) \<or> non_numeric env (?good ! j ! n) \<longrightarrow>
                 locs ! j = ''Unknown location''"
    by (elim exE conjE)
  note tv' = tv [THEN conjunct2, THEN conjunct2]
  from tv' [THEN conjunct2] paced_start [of "geo_log w" GEOCODE_DELAY "clock w"]
  have h: "http_log (state_of ?t) = http_log w"
    and pc: "paced (length (geo_log w)) GEOCODE_DELAY (geo_log (state_of ?t)) (clock (state_of ?t))"
    by simp_all
  show ?thesis
  proof (cases "list_all (wide_row p e n) rows")
    case True
    define w4 where "w4 = state_of ?t"
    with True tv [THEN conjunct2, THEN conjunct1] have r: "?t = Return (Some ?out) w4" by simp
    from r f h pc have
      "files w4 = (files w)(?out \<mapsto> concat (map (csv_writerow env)
              (header_out # map2 (out_row p e n) ?good locs)))"
      "http_log w4 = http_log w"
      "paced (length (geo_log w)) GEOCODE_DELAY (geo_log w4) (clock w4)"
      by simp_all
    with True l n show ?thesis
      unfolding Let_def u r outcome.case state_of.simps value_of.simps by blast
  next
    case False
    define w4 where "w4 = state_of ?t"
    with False tv' [THEN conjunct1]
    have r: "?t = Raise (Exc ''IndexError'' ''list index out of range'') w4"
      by simp
    let ?w5 = "emit (St_error (format_exc env (Exc ''IndexError'' ''list index out of range'')))
                 (emit (St_error (''Error processing CSV: ''
                          @ exc_str (Exc ''IndexError'' ''list index out of range''))) w4)"
    from r f h pc have
      "files ?w5 = (files w)(?out \<mapsto> concat (map (csv_writerow env)
              (header_out # map2 (out_row p e n) ?good locs)))"
      "http_log ?w5 = http_log w"
      "paced (length (geo_log w)) GEOCODE_DELAY (geo_log ?w5) (clock ?w5)"
      by (simp_all add: emit_def)
    moreover have "\<exists>evs. ui ?w5
        = evs @ [St_error ''Error processing CSV: list index out of range'',
                 St_error (format_exc env (Exc ''IndexError'' ''list index out of range''))]"
      by (simp add: emit_def)
    ultimately show ?thesis using False l n
      unfolding Let_def u r outcome.case state_of.simps value_of.simps by blast
  qed
qed


lemma demo_output_file: "output_file_of demo_input = demo_output"
  by code_simp

subsection \<open>Claim C1: a header without a required column\<close>

text \<open>
  Claim C1 says that with a header lacking \<open>pid\<close>, \<open>easting\<close> or \<open>northing\<close> the
  enrichment produces no output file. The source opens the output file for writing in
  the same \<^verbatim>\<open>with\<close> statement as the input, before it reads the header: for the input
  \<open>no_pid_csv\<close>, whose header has no \<open>pid\<close>, there is no output file before the run
  and an empty one after it.
\<close>

theorem enrich_missing_columns_counterexample:
  "index_of ''pid'' (map str_lower (hd (csv_reader demo_env no_pid_csv))) = None
   \<and> files (demo_world [demo_input \<mapsto> no_pid_csv]) demo_output = None
   \<and> files (state_of (enrich_dataset_with_locations demo_env demo_input
                         (demo_world [demo_input \<mapsto> no_pid_csv]))) demo_output = Some []"
  by code_simp

text \<open>
  Claim C1, amended. When the header lacks one of the three required columns, the
  enrichment returns no output path, its last message is the error that names the
  columns found, no geocoder request is made, and no row is written: the only change
  to the files is that the output file exists and is empty.
\<close>

theorem enrich_missing_columns:
  assumes "files w input_file = Some bytes" and "csv_reader env bytes = header # rows"
    and "index_of ''pid'' (map str_lower header) = None
         \<or> index_of ''easting'' (map str_lower header) = None
         \<or> index_of ''northing'' (map str_lower header) = None"
  shows "value_of (enrich_dataset_with_locations env input_file w) = Some None
    \<and> files (state_of (enrich_dataset_with_locations env input_file w))
        = (files w)(output_file_of input_file \<mapsto> [])
    \<and> last (ui (state_of (enrich_dataset_with_locations env input_file w)))
        = St_error (''Required columns not found. Available columns: '' @ repr_list env header)
    \<and> geo_log (state_of (enrich_dataset_with_locations env input_file w)) = geo_log w"
proof -
  from assms(1) have "files w input_file \<noteq> None" by simp
  then obtain t w3 where
    u: "enrich_dataset_with_locations env input_file w =
       (case enrich_try env input_file (output_file_of input_file) t w3 of
          Raise x w' \<Rightarrow>
            Return None
              (emit (St_error (format_exc env x))
                 (emit (St_error (''Error processing CSV: '' @ exc_str x)) w'))
        | Return r w' \<Rightarrow> Return r w')"
    and w3: "files w3 = files w" "http_log w3 = http_log w" "geo_log w3 = geo_log w"
      "clock w3 = clock w"
    by (rule enrich_unfold)
  have "enrich_try env input_file (output_file_of input_file) t w3
          = Return None
              (emit (St_error (''Required columns not found. Available columns: ''
                                 @ repr_list env header))
                 (w3\<lparr>files := (files w3)(output_file_of input_file \<mapsto> [])\<rparr>))"
    using assms output_file_of_neq [of input_file]
    by (auto simp: enrich_try_def read_file_def Let_def w3 split: option.splits)
  then show ?thesis
    by (simp add: u emit_def w3)
qed

theorem enrich_missing_columns_witness:
  "value_of (enrich_dataset_with_locations demo_env demo_input
               (demo_world [demo_input \<mapsto> no_pid_csv])) = Some None
   \<and> files (state_of (enrich_dataset_with_locations demo_env demo_input
                         (demo_world [demo_input \<mapsto> no_pid_csv])))
       = [demo_input \<mapsto> no_pid_csv, demo_output \<mapsto> []]
   \<and> last (ui (state_of (enrich_dataset_with_locations demo_env demo_input
                            (demo_world [demo_input \<mapsto> no_pid_csv]))))
       = St_error ''Required columns not found. Available columns: [id,Easting,Northing]''"
proof -
  have f: "files (demo_world [demo_input \<mapsto> no_pid_csv]) demo_input = Some no_pid_csv"
    by (simp add: demo_world_def)
  have r: "csv_reader demo_env no_pid_csv
             = [''id'', ''Easting'', ''Northing''] # [[''A1'', ''4321000'', ''3210000'']]"
    by code_simp
  have i: "index_of ''pid'' (map str_lower [''id'', ''Easting'', ''Northing'']) = None"
    by code_simp
  have p: "repr_list demo_env [''id'', ''Easting'', ''Northing''] = ''[id,Easting,Northing]''"
    by code_simp
  have w: "files (demo_world [demo_input \<mapsto> no_pid_csv]) = [demo_input \<mapsto> no_pid_csv]"
    by (simp add: demo_world_def)
  from enrich_missing_columns [OF f r disjI1 [OF i]]
  show ?thesis by (simp add: demo_output_file p w)
qed

subsection \<open>Claim C2: one output row per input row\<close>




subsection \<open>Claim C8: a row with a non-numeric coordinate\<close>




subsection \<open>Claim C10: a row with too few fields\<close>

text \<open>
  Claim C10. With a valid header, when the data rows are \<open>good @ bad # rest\<close>, every row
  of \<open>good\<close> has the three fields and \<open>bad\<close> lacks one, the enrichment stops at \<open>bad\<close>:
  it returns no output path, the last two messages are those of the catch-all handler
  for the \<^verbatim>\<open>IndexError\<close>, and the output file is left holding the header and the rows
  of \<open>good\<close>.
\<close>

theorem enrich_short_row:
  assumes "valid_header env w input_file header rows p e n"
    and "rows = good @ bad # rest"
    and "list_all (wide_row p e n) good"
    and "\<not> wide_row p e n bad"
  shows "value_of (enrich_dataset_with_locations env input_file w) = Some None
     \<and> (\<exists>locs. length locs = length good
          \<and> files (state_of (enrich_dataset_with_locations env input_file w))
                (output_file_of input_file)
              = Some (concat (map (csv_writerow env)
                  (header_out # map2 (out_row p e n) good locs))))
     \<and> (\<exists>evs. ui (state_of (enrich_dataset_with_locations env input_file w))
          = evs @ [St_error ''Error processing CSV: list index out of range'',
                   St_error (format_exc env (Exc ''IndexError'' ''list index out of range''))])"
proof -
  from assms(3) have "takeWhile (wide_row p e n) (good @ bad # rest)
                        = good @ takeWhile (wide_row p e n) (bad # rest)"
    by (intro takeWhile_append2) (simp add: list_all_iff)
  with assms(2,4) have g: "takeWhile (wide_row p e n) rows = good" by simp
  from assms(2,4) have na: "\<not> list_all (wide_row p e n) rows" by simp
  from enrich_valid [OF assms(1), unfolded Let_def g] na
  show ?thesis by auto
qed

theorem enrich_short_row_witness:
  "value_of (enrich_dataset_with_locations demo_env demo_input
               (demo_world [demo_input \<mapsto> short_row_csv])) = Some None
   \<and> (\<exists>locs. length locs = length [[''A1'', ''4321000'', ''3210000'']]
        \<and> files (state_of (enrich_dataset_with_locations demo_env demo_input
                              (demo_world [demo_input \<mapsto> short_row_csv])))
              (output_file_of demo_input)
            = Some (concat (map (csv_writerow demo_env)
                (header_out # map2 (out_row 0 1 2) [[''A1'', ''4321000'', ''3210000'']] locs))))
   \<and> (\<exists>evs. ui (state_of (enrich_dataset_with_locations demo_env demo_input
                              (demo_world [demo_input \<mapsto> short_row_csv])))
        = evs @ [St_error ''Error processing CSV: list index out of range'',
                 St_error (format_exc demo_env (Exc ''IndexError'' ''list index out of range''))])"
proof -
  have v: "valid_header demo_env (demo_world [demo_input \<mapsto> short_row_csv]) demo_input
     [''pid'', ''easting'', ''northing'']
     [[''A1'', ''4321000'', ''3210000''], [''A2''], [''A3'', ''4321000'', ''3210000'']] 0 1 2"
    by code_simp
  have s: "[[''A1'', ''4321000'', ''3210000''], [''A2''], [''A3'', ''4321000'', ''3210000'']]
             = [[''A1'', ''4321000'', ''3210000'']] @ [''A2''] # [[''A3'', ''4321000'', ''3210000'']]"
    by simp
  have a: "list_all (wide_row 0 1 2) [[''A1'', ''4321000'', ''3210000'']]"
    by code_simp
  have b: "\<not> wide_row 0 1 2 [''A2'']"
    by code_simp
  show ?thesis by (rule enrich_short_row [OF v s a b])
qed

section \<open>The delay between requests\<close>

lemma spaced_span:
  "spaced D ts \<Longrightarrow> ts \<noteq> [] \<Longrightarrow> hd ts + (length ts - 1) * D \<le> last ts"
  by (induction D ts rule: spaced.induct) auto

lemma enrich_try_paced:
  assumes "out \<noteq> input_file" and "k \<le> length (geo_log w)"
    and "paced k GEOCODE_DELAY (geo_log w) (clock w)"
  shows "paced k GEOCODE_DELAY (geo_log (state_of (enrich_try env input_file out t w)))
           (clock (state_of (enrich_try env input_file out t w)))"
proof (cases "files w input_file")
  case None
  with assms(3) show ?thesis by (simp add: enrich_try_def)
next
  case (Some bytes)
  show ?thesis
  proof (cases "csv_reader env bytes")
    case Nil
    with Some assms show ?thesis
      by (simp add: enrich_try_def read_file_def Let_def)
  next
    case (Cons header rows)
    show ?thesis
    proof (cases "\<exists>p e n. index_of ''pid'' (map str_lower header) = Some p
                     \<and> index_of ''easting'' (map str_lower header) = Some e
                     \<and> index_of ''northing'' (map str_lower header) = Some n")
      case True
      then obtain p e n where "valid_header env w input_file header rows p e n"
        using Some Cons by (auto simp: valid_header_def)
      from enrich_try_valid [OF this assms(1), of t k, unfolded Let_def] assms(2,3)
      show ?thesis by blast
    next
      case False
      with Some Cons assms show ?thesis
        by (auto simp: enrich_try_def read_file_def Let_def emit_def split: option.splits)
    qed
  qed
qed

lemma enrich_paced:
  "paced (length (geo_log w)) GEOCODE_DELAY
     (geo_log (state_of (enrich_dataset_with_locations env input_file w)))
     (clock (state_of (enrich_dataset_with_locations env input_file w)))"
proof (cases "files w input_file")
  case None
  then show ?thesis
    by (simp add: enrich_dataset_with_locations_def emit_def paced_start)
next
  case (Some bytes)
  then have "files w input_file \<noteq> None" by simp
  then obtain t w3 where
    u: "enrich_dataset_with_locations env input_file w =
       (case enrich_try env input_file (output_file_of input_file) t w3 of
          Raise x w' \<Rightarrow>
            Return None
              (emit (St_error (format_exc env x))
                 (emit (St_error (''Error processing CSV: '' @ exc_str x)) w'))
        | Return r w' \<Rightarrow> Return r w')"
    and w3: "files w3 = files w" "http_log w3 = http_log w" "geo_log w3 = geo_log w"
      "clock w3 = clock w"
    by (rule enrich_unfold)
  have "paced (length (geo_log w)) GEOCODE_DELAY (geo_log w3) (clock w3)"
    by (simp add: w3 paced_start)
  from enrich_try_paced [OF output_file_of_neq _ this, of env input_file t] w3
  have "paced (length (geo_log w)) GEOCODE_DELAY
          (geo_log (state_of (enrich_try env input_file (output_file_of input_file) t w3)))
          (clock (state_of (enrich_try env input_file (output_file_of input_file) t w3)))"
    by simp
  then show ?thesis
    by (cases "enrich_try env input_file (output_file_of input_file) t w3")
       (simp_all add: u emit_def)
qed

text \<open>
  Claim C9. Time is the clock of the state, in milliseconds: a \<^verbatim>\<open>sleep\<close> moves it on
  by its argument, a request by the time the environment gives it, and nothing else
  takes time. The batch download sleeps \<open>DELAY\<close> after every call of
  \<^verbatim>\<open>download_tile\<close>, the enrichment sleeps \<open>GEOCODE_DELAY\<close> after every call of
  \<^verbatim>\<open>get_location_name\<close>. So, for every environment and every input, the archive
  requests of one batch run are issued at least \<open>DELAY\<close> apart, each from the one
  before it, and \<open>N\<close> of them span at least \<open>(N - 1) * DELAY\<close>; the geocoder requests
  of one enrichment run are at least \<open>GEOCODE_DELAY\<close> apart and \<open>N\<close> of them span at
  least \<open>(N - 1) * GEOCODE_DELAY\<close>.
\<close>

theorem calls_are_paced:
  "let rb = batch_download env min_e max_e min_n max_n disp_choice year ident w;
       tb = map fst (drop (length (http_log w)) (http_log (state_of rb)));
       re = enrich_dataset_with_locations env input_file w;
       te = map fst (drop (length (geo_log w)) (geo_log (state_of re)))
   in spaced DELAY tb
      \<and> (tb \<noteq> [] \<longrightarrow> hd tb + (length tb - 1) * DELAY \<le> last tb)
      \<and> spaced GEOCODE_DELAY te
      \<and> (te \<noteq> [] \<longrightarrow> hd te + (length te - 1) * GEOCODE_DELAY \<le> last te)"
proof -
  from batch_download_ok [of env min_e max_e min_n max_n disp_choice year ident w]
  obtain w' where r: "batch_download env min_e max_e min_n max_n disp_choice year ident w = Return () w'"
    and p: "paced (length (http_log w)) DELAY (http_log w') (clock w')"
    by blast
  from p have b: "spaced DELAY (map fst (drop (length (http_log w)) (http_log w')))"
    by (simp add: paced_def)
  from enrich_paced [of w env input_file]
  have e: "spaced GEOCODE_DELAY (map fst (drop (length (geo_log w))
             (geo_log (state_of (enrich_dataset_with_locations env input_file w)))))"
    by (simp add: paced_def)
  from b e spaced_span [OF b] spaced_span [OF e] show ?thesis
    by (simp add: Let_def r)
qed

theorem calls_are_paced_witness:
  "let w = demo_world [demo_input \<mapsto> good_csv];
       tb = map fst (drop (length (http_log w))
              (http_log (state_of (batch_download demo_env 10 11 25 26 ''Both'' ''2019_2023'' ''key'' w))));
       te = map fst (drop (length (geo_log w))
              (geo_log (state_of (enrich_dataset_with_locations demo_env demo_input w))))
   in length tb = 8 \<and> hd tb + 7 * DELAY \<le> last tb
      \<and> length te = 2 \<and> hd te + 1 * GEOCODE_DELAY \<le> last te"
proof -
  let ?w = "demo_world [demo_input \<mapsto> good_csv]"
  let ?tb = "map fst (drop (length (http_log ?w))
              (http_log (state_of (batch_download demo_env 10 11 25 26 ''Both'' ''2019_2023'' ''key'' ?w))))"
  let ?te = "map fst (drop (length (geo_log ?w))
              (geo_log (state_of (enrich_dataset_with_locations demo_env demo_input ?w))))"
  have g: "length (grid_tasks 10 11 25 26 (displacements_of ''Both'')) = 8"
    by code_simp
  from batch_download_ok [of demo_env 10 11 25 26 "''Both''" "''2019_2023''" "''key''" ?w] g
  have b: "length ?tb = 8"
    by auto
  have e: "length ?te = 2"
    by code_simp
  from b have b': "?tb \<noteq> []" by auto
  from e have e': "?te \<noteq> []" by auto
  from calls_are_paced [of demo_env 10 11 25 26 "''Both''" "''2019_2023''" "''key''" ?w demo_input]
  have "hd ?tb + (length ?tb - 1) * DELAY \<le> last ?tb"
    and "hd ?te + (length ?te - 1) * GEOCODE_DELAY \<le> last ?te"
    using b' e' unfolding Let_def by blast+
  with b e show ?thesis unfolding Let_def by simp
qed

end
